theory Spec2Isabelle
  imports Main
begin

section \<open>Errors, contexts and durations\<close>

text \<open>
  Go's \<open>error\<close> values. \<open>ErrCacheMiss\<close> (package store) and \<open>RedisNil\<close> (the client
  library's \<open>redis.Nil\<close>) are sentinels that the code compares with \<open>==\<close>;
  \<open>Canceled\<close> and \<open>DeadlineExceeded\<close> are the two values of \<open>ctx.Err()\<close>; \<open>Error m\<close> is
  any other error value, with message \<open>m\<close>.
\<close>

datatype error =
    ErrCacheMiss
  | RedisNil
  | Canceled
  | DeadlineExceeded
  | NothingToBackup
  | EncodeError string
  | DecodeError string
  | StorageReadError string
  | StorageWriteError string
  | Panic string
  | Error string

text \<open>
  The constructors \<open>NothingToBackup\<close>, \<open>EncodeError\<close>, \<open>DecodeError\<close>, \<open>StorageReadError\<close> and
  \<open>StorageWriteError\<close> are the error kinds of the service and codec (section 7 of the
  specification); nothing in package store or package api produces them. \<open>Panic\<close> is not a
  returned error: it marks a run that ends in a Go panic.
\<close>

fun message :: "error \<Rightarrow> string" where
  "message ErrCacheMiss = ''data not found in Redis''"
| "message RedisNil = ''redis: nil''"
| "message Canceled = ''context canceled''"
| "message DeadlineExceeded = ''context deadline exceeded''"
| "message NothingToBackup = ''nothing to backup''"
| "message (EncodeError m) = m"
| "message (DecodeError m) = m"
| "message (StorageReadError m) = m"
| "message (StorageWriteError m) = m"
| "message (Panic m) = m"
| "message (Error m) = m"

text \<open>\<open>fmt.Errorf(prefix + "%v", err)\<close>: a fresh error whose text ends in the text of \<open>err\<close>.\<close>

definition Errorf :: "string \<Rightarrow> error \<Rightarrow> error" where
  "Errorf prefix err = Error (prefix @ message err)"

text \<open>
  A \<open>context.Context\<close>, as far as the code can see it: still live, or done with the
  error \<open>ctx.Err()\<close> reports. \<open>context.Background()\<close> is never done.
\<close>

datatype Context = Live | Done error

definition Background :: Context where
  "Background = Live"

text \<open>\<open>time.Duration\<close> counts nanoseconds.\<close>

type_synonym duration = nat

definition Second :: duration where
  "Second = 1000000000"

definition Minute :: duration where
  "Minute = 60 * Second"

definition Hour :: duration where
  "Hour = 60 * Minute"

section \<open>The key-value backend\<close>

text \<open>
  The cluster behind \<open>rc.Client\<close>, a \<open>*redis.ClusterClient\<close>: a key holds a string or a
  hash of fields, and optionally the instant (in nanoseconds of the backend's clock) at
  which it expires. Every key lies in a hash slot, \<open>slot\<close>, and the slots are spread over
  the nodes. The other fields are the environment's part:
  \<^item> \<open>down\<close> is \<open>Some e\<close> when no node answers, and every command then fails with \<open>e\<close>
    without reaching the data;
  \<^item> \<open>lag s\<close> is the time that passes between a call of \<open>pipe.Exec\<close> and the instant at
    which the node holding slot \<open>s\<close> runs its part of the pipeline;
  \<^item> \<open>broken s\<close> is \<open>Some e\<close> when the part of a pipeline that goes to slot \<open>s\<close> fails with
    \<open>e\<close> and is not applied (its node does not answer, or the context is canceled before
    this part is sent);
  \<^item> \<open>strict\<close> tells the client library's version: a newer client refuses a transactional
    pipeline whose keys lie in more than one slot.
\<close>

datatype rvalue = RString string | RHash "string \<rightharpoonup> string"

record entry =
  content :: rvalue
  expires :: "nat option"

type_synonym keyspace = "string \<rightharpoonup> entry"

record backend =
  keys :: keyspace
  now :: nat
  down :: "error option"
  slot :: "string \<Rightarrow> nat"
  lag :: "nat \<Rightarrow> nat"
  broken :: "nat \<Rightarrow> error option"
  strict :: bool

definition expired :: "nat \<Rightarrow> entry \<Rightarrow> bool" where
  "expired t e = (case expires e of None \<Rightarrow> False | Some w \<Rightarrow> w < t)"

text \<open>What a command sees under a key at time \<open>t\<close>: an expired key is absent.\<close>

definition lookup :: "nat \<Rightarrow> keyspace \<Rightarrow> string \<Rightarrow> entry option" where
  "lookup t ks k = (case ks k of None \<Rightarrow> None | Some e \<Rightarrow> if expired t e then None else Some e)"

datatype cmd =
    PING
  | GET string
  | SET string string duration
  | HGET string string
  | HSET string string string
  | EXPIRE string duration

definition WRONGTYPE :: error where
  "WRONGTYPE = Error ''WRONGTYPE Operation against a key holding the wrong kind of value''"

text \<open>
  One command run by the backend at time \<open>t\<close>: the reply (\<open>Inl\<close> an error, \<open>RedisNil\<close> for
  the nil reply) and the key space afterwards. \<open>SET\<close> with a positive duration replaces
  the key whatever it held and sets its expiry; \<open>HSET\<close> creates the hash without expiry
  or updates a field and keeps the expiry; \<open>EXPIRE\<close> acts on a present key only.
\<close>

fun run :: "nat \<Rightarrow> cmd \<Rightarrow> keyspace \<Rightarrow> (error + string) \<times> keyspace" where
  "run t PING ks = (Inr ''PONG'', ks)"
| "run t (GET k) ks =
     (case lookup t ks k of
        None \<Rightarrow> (Inl RedisNil, ks)
      | Some e \<Rightarrow>
          (case content e of
             RString v \<Rightarrow> (Inr v, ks)
           | RHash h \<Rightarrow> (Inl WRONGTYPE, ks)))"
| "run t (SET k v d) ks =
     (Inr ''OK'', ks(k \<mapsto> \<lparr>content = RString v, expires = (if d = 0 then None else Some (t + d))\<rparr>))"
| "run t (HGET k f) ks =
     (case lookup t ks k of
        None \<Rightarrow> (Inl RedisNil, ks)
      | Some e \<Rightarrow>
          (case content e of
             RString v \<Rightarrow> (Inl WRONGTYPE, ks)
           | RHash h \<Rightarrow> (case h f of None \<Rightarrow> (Inl RedisNil, ks) | Some v \<Rightarrow> (Inr v, ks))))"
| "run t (HSET k f v) ks =
     (case lookup t ks k of
        None \<Rightarrow> (Inr ''1'', ks(k \<mapsto> \<lparr>content = RHash [f \<mapsto> v], expires = None\<rparr>))
      | Some e \<Rightarrow>
          (case content e of
             RString s \<Rightarrow> (Inl WRONGTYPE, ks)
           | RHash h \<Rightarrow>
               (Inr (if h f = None then ''1'' else ''0''),
                ks(k \<mapsto> e\<lparr>content := RHash (h(f \<mapsto> v))\<rparr>))))"
| "run t (EXPIRE k d) ks =
     (case lookup t ks k of
        None \<Rightarrow> (Inr ''0'', ks)
      | Some e \<Rightarrow>
          (if d = 0 then (Inr ''1'', ks(k := None))
           else (Inr ''1'', ks(k \<mapsto> e\<lparr>expires := Some (t + d)\<rparr>))))"

text \<open>The commands of a \<open>MULTI\<close>/\<open>EXEC\<close> block run one after the other at one instant;
  a command that fails does not undo or stop the others.\<close>

fun run_all :: "nat \<Rightarrow> cmd list \<Rightarrow> keyspace \<Rightarrow> (error + string) list \<times> keyspace" where
  "run_all t [] ks = ([], ks)"
| "run_all t (c # cs) ks =
     (case run t c ks of (r, ks') \<Rightarrow>
        (case run_all t cs ks' of (rs, ks'') \<Rightarrow> (r # rs, ks'')))"

text \<open>
  A \<open>TxPipeline\<close> of a cluster client is not one transaction. On \<open>Exec\<close> the client sorts the
  queued commands by the hash slot of their key and sends one \<open>MULTI\<close>/\<open>EXEC\<close> block per
  slot to the node that holds it; each block runs at its own instant, and a block that
  fails leaves the blocks of the other slots applied. The blocks of two slots touch no
  common key, so the outcome is that of taking the queued commands in their order and
  running each at the instant of its slot's block, or not at all when that block fails;
  the replies stay in the order of the queue, from which \<open>Exec\<close> returns the first error.
\<close>

fun key_of :: "cmd \<Rightarrow> string" where
  "key_of PING = []"
| "key_of (GET k) = k"
| "key_of (SET k v d) = k"
| "key_of (HGET k f) = k"
| "key_of (HSET k f v) = k"
| "key_of (EXPIRE k d) = k"

definition instant :: "backend \<Rightarrow> string \<Rightarrow> nat" where
  "instant b k = now b + lag b (slot b k)"

definition run_queued :: "backend \<Rightarrow> cmd \<Rightarrow> keyspace \<Rightarrow> (error + string) \<times> keyspace" where
  "run_queued b c ks =
     (case broken b (slot b (key_of c)) of
        Some e \<Rightarrow> (Inl e, ks)
      | None \<Rightarrow> run (instant b (key_of c)) c ks)"

fun run_pipeline :: "backend \<Rightarrow> cmd list \<Rightarrow> keyspace \<Rightarrow> (error + string) list \<times> keyspace" where
  "run_pipeline b [] ks = ([], ks)"
| "run_pipeline b (c # cs) ks =
     (case run_queued b c ks of (r, ks') \<Rightarrow>
        (case run_pipeline b cs ks' of (rs, ks'') \<Rightarrow> (r # rs, ks'')))"

text \<open>The block of one slot, and the slots of a pipeline in the order they first occur.\<close>

definition block :: "backend \<Rightarrow> nat \<Rightarrow> cmd list \<Rightarrow> cmd list" where
  "block b s pipe = filter (\<lambda>c. slot b (key_of c) = s) pipe"

definition slots_of :: "backend \<Rightarrow> cmd list \<Rightarrow> nat list" where
  "slots_of b pipe = remdups (map (\<lambda>c. slot b (key_of c)) pipe)"

definition run_block :: "backend \<Rightarrow> nat \<Rightarrow> cmd list \<Rightarrow> keyspace \<Rightarrow> keyspace" where
  "run_block b s pipe ks =
     (case broken b s of
        Some e \<Rightarrow> ks
      | None \<Rightarrow> snd (run_all (now b + lag b s) (block b s pipe) ks))"

definition one_slot :: "backend \<Rightarrow> cmd list \<Rightarrow> bool" where
  "one_slot b pipe = (length (slots_of b pipe) \<le> 1)"

definition CROSSSLOT :: error where
  "CROSSSLOT = Error ''CROSSSLOT Keys in request do not hash to the same slot''"

fun first_error :: "(error + string) list \<Rightarrow> error option" where
  "first_error [] = None"
| "first_error (Inl e # rs) = Some e"
| "first_error (Inr v # rs) = first_error rs"

text \<open>
  The client: a command is not sent when the context is already done or the cluster
  is down. \<open>Process\<close> is a single command (\<open>rc.Client.Get(ctx, k).Result()\<close> and the
  like), run at the instant \<open>now\<close>; \<open>Exec\<close> is \<open>pipe.Exec(ctx)\<close> on the commands queued in
  a \<open>TxPipeline\<close>, and returns the first error among the replies.
\<close>

definition Process :: "Context \<Rightarrow> cmd \<Rightarrow> backend \<Rightarrow> (error + string) \<times> backend" where
  "Process ctx c b =
     (case ctx of
        Done e \<Rightarrow> (Inl e, b)
      | Live \<Rightarrow>
          (case down b of
             Some e \<Rightarrow> (Inl e, b)
           | None \<Rightarrow> (case run (now b) c (keys b) of (r, ks) \<Rightarrow> (r, b\<lparr>keys := ks\<rparr>))))"

definition Exec :: "Context \<Rightarrow> cmd list \<Rightarrow> backend \<Rightarrow> (error + string list) \<times> backend" where
  "Exec ctx pipe b =
     (case ctx of
        Done e \<Rightarrow> (Inl e, b)
      | Live \<Rightarrow>
          (case down b of
             Some e \<Rightarrow> (Inl e, b)
           | None \<Rightarrow>
               (if strict b \<and> \<not> one_slot b pipe then (Inl CROSSSLOT, b)
                else
                  (case run_pipeline b pipe (keys b) of (rs, ks) \<Rightarrow>
                     (case first_error rs of
                        Some e \<Rightarrow> (Inl e, b\<lparr>keys := ks\<rparr>)
                      | None \<Rightarrow> (Inr (map projr rs), b\<lparr>keys := ks\<rparr>))))))"

section \<open>The data model and its serialization\<close>

text \<open>
  Package model has no source file here. The store reads three things of it:
  the field \<open>Included\<close> of a \<open>LeaderboardResponse\<close>, and the fields \<open>ID\<close> and
  \<open>Attributes\<close> of each element. The type of the attributes (\<open>'a\<close>), the remaining
  fields of the response (the record's extension \<open>'z\<close>) and the season record (\<open>'s\<close>)
  are left open.
\<close>

record 'a Player =
  ID :: string
  Attributes :: 'a

record 'a LeaderboardResponse =
  Included :: "'a Player list"

text \<open>
  \<open>json.Marshal\<close> and \<open>json.Unmarshal\<close> at the three types the store uses them at.
  They are parameters of the model: each returns \<open>Inl\<close> of the library's error or \<open>Inr\<close>
  of the result. \<open>json.Unmarshal\<close> is not taken to be strict: what it makes of a text that
  is not a record of the expected shape is the parameter's business. The three \<open>Zero\<close>
  fields are the values of \<open>&model.LeaderboardResponse{}\<close>, \<open>&model.PlayerAttribute{}\<close> and
  \<open>&model.SeasonData{}\<close>, which the reads allocate and decode into.
\<close>

record ('a, 'z, 's) json =
  MarshalLeaderboard :: "('a, 'z) LeaderboardResponse_scheme \<Rightarrow> error + string"
  UnmarshalLeaderboard :: "string \<Rightarrow> error + ('a, 'z) LeaderboardResponse_scheme"
  MarshalAttributes :: "'a \<Rightarrow> error + string"
  UnmarshalAttributes :: "string \<Rightarrow> error + 'a"
  MarshalSeason :: "'s \<Rightarrow> error + string"
  UnmarshalSeason :: "string \<Rightarrow> error + 's"
  ZeroLeaderboard :: "('a, 'z) LeaderboardResponse_scheme"
  ZeroAttributes :: 'a
  ZeroSeason :: 's

text \<open>\<open>json.Marshal\<close> of a pointer: a nil pointer is the text \<open>null\<close>.\<close>

definition Marshal :: "('v \<Rightarrow> error + string) \<Rightarrow> 'v option \<Rightarrow> error + string" where
  "Marshal m p = (case p of None \<Rightarrow> Inr ''null'' | Some v \<Rightarrow> m v)"

text \<open>
  \<open>json.Unmarshal(data, v)\<close> for \<open>v\<close> pointing to a freshly allocated record \<open>zero\<close>: the
  text \<open>null\<close> has no effect and is no error, so the record stays as allocated.
\<close>

definition Unmarshal :: "(string \<Rightarrow> error + 'v) \<Rightarrow> 'v \<Rightarrow> string \<Rightarrow> error + 'v" where
  "Unmarshal u zero data = (if data = ''null'' then Inr zero else u data)"

section \<open>Package store\<close>

text \<open>
  Every operation takes the context and the backend and returns its Go result with the
  backend afterwards. The receiver \<open>rc\<close> and its client are taken to be non-nil, as
  \<open>NewRedisClient\<close> returns them.
\<close>

definition Ping :: "Context \<Rightarrow> backend \<Rightarrow> error option \<times> backend" where
  "Ping ctx b =
     (case Process ctx PING b of
        (Inl err, b') \<Rightarrow> (Some err, b')
      | (Inr pong, b') \<Rightarrow> (None, b'))"

definition GetLeaderboard ::
  "('a, 'z, 's) json \<Rightarrow> Context \<Rightarrow> backend \<Rightarrow>
     (error + ('a, 'z) LeaderboardResponse_scheme) \<times> backend" where
  "GetLeaderboard js ctx b =
     (case Process ctx (GET ''leaderboard'') b of
        (Inl err, b') \<Rightarrow>
          (if err = RedisNil then (Inl ErrCacheMiss, b') else (Inl err, b'))
      | (Inr data, b') \<Rightarrow>
          (case Unmarshal (UnmarshalLeaderboard js) (ZeroLeaderboard js) data of
             Inl err \<Rightarrow>
               (Inl (Errorf ''redisclient - error unmarshalling leaderboard data: '' err), b')
           | Inr leaderboard \<Rightarrow> (Inr leaderboard, b')))"

text \<open>
  The loop of \<open>UpdateLeaderboard\<close> over \<open>leaderboardData.Included\<close>: each player queues
  an \<open>HSET\<close> and an \<open>EXPIRE\<close> on the pipeline; a marshalling error leaves the loop and
  the function at once, with the pipeline never executed.
\<close>

fun queue_players ::
  "('a, 'z, 's) json \<Rightarrow> 'a Player list \<Rightarrow> cmd list \<Rightarrow> error + cmd list" where
  "queue_players js [] pipe = Inr pipe"
| "queue_players js (player # rest) pipe =
     (case MarshalAttributes js (Attributes player) of
        Inl err \<Rightarrow> Inl (Errorf ''redisclient - error marshaling player stats: '' err)
      | Inr playerStatsJSON \<Rightarrow>
          queue_players js rest
            (pipe @ [HSET (''player_stats:'' @ ID player) ''stats'' playerStatsJSON,
                     EXPIRE (''player_stats:'' @ ID player) (10 * Minute)]))"

definition UpdateLeaderboard ::
  "('a, 'z, 's) json \<Rightarrow> Context \<Rightarrow> ('a, 'z) LeaderboardResponse_scheme option \<Rightarrow> backend \<Rightarrow>
     error option \<times> backend" where
  "UpdateLeaderboard js ctx leaderboardData b =
     (case Marshal (MarshalLeaderboard js) leaderboardData of
        Inl err \<Rightarrow>
          (Some (Errorf ''redisclient - error marshaling entire leaderboard data: '' err), b)
      | Inr leaderboardJSON \<Rightarrow>
          (case leaderboardData of
             None \<Rightarrow> (Some (Panic ''invalid memory address or nil pointer dereference''), b)
           | Some lb \<Rightarrow>
               (case queue_players js (Included lb)
                       [SET ''leaderboard'' leaderboardJSON (10 * Minute)] of
                  Inl err \<Rightarrow> (Some err, b)
                | Inr pipe \<Rightarrow>
                    (case Exec ctx pipe b of
                       (Inl err, b') \<Rightarrow>
                         (Some (Errorf ''redisclient - error updating leaderboard in Redis: '' err), b')
                     | (Inr replies, b') \<Rightarrow> (None, b')))))"

definition GetPlayerStats ::
  "('a, 'z, 's) json \<Rightarrow> Context \<Rightarrow> string \<Rightarrow> backend \<Rightarrow> (error + 'a) \<times> backend" where
  "GetPlayerStats js ctx playerID b =
     (case Process ctx (HGET (''player_stats:'' @ playerID) ''stats'') b of
        (Inl err, b') \<Rightarrow>
          (if err = RedisNil then (Inl ErrCacheMiss, b') else (Inl err, b'))
      | (Inr data, b') \<Rightarrow>
          (case Unmarshal (UnmarshalAttributes js) (ZeroAttributes js) data of
             Inl err \<Rightarrow>
               (Inl (Errorf ''redisclient - error unmarshalling player stats: '' err), b')
           | Inr playerStats \<Rightarrow> (Inr playerStats, b')))"

definition GetSeason ::
  "('a, 'z, 's) json \<Rightarrow> Context \<Rightarrow> backend \<Rightarrow> (error + 's) \<times> backend" where
  "GetSeason js ctx b =
     (case Process ctx (GET ''current_season'') b of
        (Inl err, b') \<Rightarrow>
          (if err = RedisNil then (Inl ErrCacheMiss, b') else (Inl err, b'))
      | (Inr data, b') \<Rightarrow>
          (case Unmarshal (UnmarshalSeason js) (ZeroSeason js) data of
             Inl err \<Rightarrow>
               (Inl (Errorf ''redisclient - error unmarshalling season data: '' err), b')
           | Inr season \<Rightarrow> (Inr season, b')))"

definition UpdateSeason ::
  "('a, 'z, 's) json \<Rightarrow> Context \<Rightarrow> 's option \<Rightarrow> backend \<Rightarrow> error option \<times> backend" where
  "UpdateSeason js ctx season b =
     (case Marshal (MarshalSeason js) season of
        Inl err \<Rightarrow> (Some (Errorf ''redisclient - error marshalling season data: '' err), b)
      | Inr data \<Rightarrow>
          (case Process ctx (SET ''current_season'' data (24 * Hour)) b of
             (Inl err, b') \<Rightarrow> (Some err, b')
           | (Inr ok, b') \<Rightarrow> (None, b')))"

section \<open>Package api\<close>

text \<open>
  The service package has no source file here: the handlers reach it only
  through five methods of \<open>s.leaderboardService\<close>, which are parameters here. \<open>'w\<close> is
  the state the service works on.
\<close>

record ('l, 's, 'w) LeaderboardService =
  service_GetCurrentSeason :: "Context \<Rightarrow> 'w \<Rightarrow> (error + 's) \<times> 'w"
  service_GetCurrentLeaderboard :: "Context \<Rightarrow> 'w \<Rightarrow> (error + 'l) \<times> 'w"
  service_GetPlayerStats :: "Context \<Rightarrow> string \<Rightarrow> 'w \<Rightarrow> (error + int \<times> int \<times> int) \<times> 'w"
  service_BackupLeaderboardData :: "Context \<Rightarrow> string \<Rightarrow> string \<Rightarrow> 'w \<Rightarrow> error option \<times> 'w"
  service_RestoreLeaderboardData :: "Context \<Rightarrow> string \<Rightarrow> string \<Rightarrow> 'w \<Rightarrow> error option \<times> 'w"

text \<open>
  What a handler works on besides the request: the backend behind \<open>s.redisClient\<close>, the
  lines written through \<open>s.logger\<close>, the wall clock as
  \<open>time.Now().Format("20060102_150405")\<close> prints it, and whatever else the service keeps.
\<close>

record 'x world =
  redis :: backend
  logged :: "(string \<times> error) list"
  clock :: string
  rest :: 'x

record request =
  req_ctx :: Context
  params :: "string \<rightharpoonup> string"
  query :: "string \<rightharpoonup> string"

text \<open>\<open>c.Param\<close> and \<open>c.Query\<close> return the empty string for a name that is not there.\<close>

definition Param :: "request \<Rightarrow> string \<Rightarrow> string" where
  "Param c name = (case params c name of None \<Rightarrow> [] | Some v \<Rightarrow> v)"

definition Query :: "request \<Rightarrow> string \<Rightarrow> string" where
  "Query c name = (case query c name of None \<Rightarrow> [] | Some v \<Rightarrow> v)"

datatype 's jvalue = JString string | JInt int | JRecord 's

datatype ('l, 's) body = H "(string \<times> 's jvalue) list" | Document 'l

record ('l, 's) response =
  status :: nat
  body :: "('l, 's) body"

definition StatusOK :: nat where
  "StatusOK = 200"

definition StatusBadRequest :: nat where
  "StatusBadRequest = 400"

definition StatusNotFound :: nat where
  "StatusNotFound = 404"

definition StatusInternalServerError :: nat where
  "StatusInternalServerError = 500"

text \<open>\<open>c.JSON(code, obj)\<close> and \<open>s.logger.WithError(err).Error(msg)\<close>.\<close>

definition JSON :: "nat \<Rightarrow> ('l, 's) body \<Rightarrow> ('l, 's) response" where
  "JSON code obj = \<lparr>status = code, body = obj\<rparr>"

definition logError :: "error \<Rightarrow> string \<Rightarrow> 'x world \<Rightarrow> 'x world" where
  "logError err msg w = w\<lparr>logged := logged w @ [(msg, err)]\<rparr>"

type_synonym ('l, 's, 'x) handler = "request \<Rightarrow> 'x world \<Rightarrow> ('l, 's) response \<times> 'x world"

definition handlePing ::
  "('l, 's, 'x world) LeaderboardService \<Rightarrow> ('l, 's, 'x) handler" where
  "handlePing s c w = (JSON StatusOK (H [(''message'', JString ''pong'')]), w)"

definition handleRedisPing ::
  "('l, 's, 'x world) LeaderboardService \<Rightarrow> ('l, 's, 'x) handler" where
  "handleRedisPing s c w =
     (case Ping (req_ctx c) (redis w) of
        (Some err, b) \<Rightarrow>
          (JSON StatusInternalServerError (H [(''error'', JString ''Failed to ping Redis'')]),
           logError err ''Failed to ping Redis'' (w\<lparr>redis := b\<rparr>))
      | (None, b) \<Rightarrow> (JSON StatusOK (H [(''message'', JString ''pong'')]), w\<lparr>redis := b\<rparr>))"

definition handleGetCurrentSeason ::
  "('l, 's, 'x world) LeaderboardService \<Rightarrow> ('l, 's, 'x) handler" where
  "handleGetCurrentSeason s c w =
     (case service_GetCurrentSeason s Background w of
        (Inl err, w') \<Rightarrow>
          (JSON StatusInternalServerError (H [(''error'', JString ''Failed to get current season'')]),
           logError err ''Failed to get current season'' w')
      | (Inr seasonData, w') \<Rightarrow>
          (JSON StatusOK (H [(''seasonData'', JRecord seasonData)]), w'))"

definition handleGetCurrentLeaderboard ::
  "('l, 's, 'x world) LeaderboardService \<Rightarrow> ('l, 's, 'x) handler" where
  "handleGetCurrentLeaderboard s c w =
     (case service_GetCurrentLeaderboard s Background w of
        (Inl err, w') \<Rightarrow>
          (JSON StatusInternalServerError
             (H [(''error'', JString ''Failed to get current leaderboard'')]),
           logError err ''Failed to get current leaderboard'' w')
      | (Inr leaderboardData, w') \<Rightarrow> (JSON StatusOK (Document leaderboardData), w'))"

definition handleGetPlayerStats ::
  "('l, 's, 'x world) LeaderboardService \<Rightarrow> ('l, 's, 'x) handler" where
  "handleGetPlayerStats s c w =
     (let playerID = Param c ''playerID'' in
      case service_GetPlayerStats s Background playerID w of
        (Inl err, w') \<Rightarrow>
          (if err = ErrCacheMiss
           then (JSON StatusNotFound (H [(''error'', JString ''Player stats not found'')]), w')
           else (JSON StatusInternalServerError
                   (H [(''error'', JString ''Failed to get player stats'')]),
                 logError err ''Failed to get player stats'' w'))
      | (Inr (rank, gamesPlayed, wins), w') \<Rightarrow>
          (JSON StatusOK
             (H [(''playerID'', JString playerID), (''rank'', JInt rank),
                 (''gamesPlayed'', JInt gamesPlayed), (''wins'', JInt wins)]),
           w'))"

definition handleBackupLeaderboard ::
  "('l, 's, 'x world) LeaderboardService \<Rightarrow> ('l, 's, 'x) handler" where
  "handleBackupLeaderboard s c w =
     (let bucketName = ''pubg-leaderboard'';
          backupFileName = ''leaderboard_backup_'' @ clock w @ ''.json'' in
      case service_BackupLeaderboardData s (req_ctx c) bucketName backupFileName w of
        (Some err, w') \<Rightarrow>
          (JSON StatusInternalServerError
             (H [(''error'', JString ''Failed to backup leaderboard data'')]),
           logError err ''API: Failed to backup leaderboard data'' w')
      | (None, w') \<Rightarrow>
          (JSON StatusOK
             (H [(''message'', JString ''Leaderboard data backed up successfully''),
                 (''bucket'', JString bucketName), (''file'', JString backupFileName)]),
           w'))"

definition handleRestoreLeaderboard ::
  "('l, 's, 'x world) LeaderboardService \<Rightarrow> ('l, 's, 'x) handler" where
  "handleRestoreLeaderboard s c w =
     (let bucketName = ''pubg-leaderboard'';
          backupFileName = Query c ''file'' in
      if backupFileName = []
      then (JSON StatusBadRequest (H [(''error'', JString ''Backup file name is required'')]), w)
      else
        (case service_RestoreLeaderboardData s (req_ctx c) bucketName backupFileName w of
           (Some err, w') \<Rightarrow>
             (JSON StatusInternalServerError
                (H [(''error'', JString ''Failed to restore leaderboard data'')]),
              logError err ''API: Failed to restore leaderboard data'' w')
         | (None, w') \<Rightarrow>
             (JSON StatusOK
                (H [(''message'', JString ''Leaderboard data restored successfully''),
                    (''bucket'', JString bucketName), (''file'', JString backupFileName)]),
              w')))"

text \<open>\<open>setupRoutes\<close>: the method, the path pattern and the handler of each route.\<close>

definition setupRoutes ::
  "('l, 's, 'x world) LeaderboardService \<Rightarrow> (string \<times> string \<times> ('l, 's, 'x) handler) list" where
  "setupRoutes s =
     [(''GET'', ''/ping'', handlePing s),
      (''GET'', ''/redis-ping'', handleRedisPing s),
      (''GET'', ''/current-season'', handleGetCurrentSeason s),
      (''GET'', ''/current-leaderboard'', handleGetCurrentLeaderboard s),
      (''GET'', ''/player-stats/:playerID'', handleGetPlayerStats s),
      (''POST'', ''/backup-leaderboard'', handleBackupLeaderboard s),
      (''POST'', ''/restore-leaderboard'', handleRestoreLeaderboard s)]"

section \<open>Backup and restore\<close>

text \<open>
  Blob storage: named objects keyed by container and object name. \<open>unavailable\<close> is the
  environment's part, as \<open>down\<close> is for the backend.
\<close>

record storage =
  objects :: "string \<times> string \<rightharpoonup> string"
  unavailable :: "error option"

text \<open>
  Modelled from the spec: the codec and storage path (\<open>Backup\<close>, \<open>Restore\<close>) has no
  source file here. Section 4.3: \<open>Backup\<close> encodes the snapshot to a blob and uploads
  it under the given name, failing with \<open>EncodeError\<close> or \<open>StorageWriteError\<close>; the upload
  is all or nothing.
\<close>

definition Backup ::
  "('a, 'z, 's) json \<Rightarrow> ('a, 'z) LeaderboardResponse_scheme \<Rightarrow> string \<Rightarrow> string \<Rightarrow> storage \<Rightarrow>
     error option \<times> storage" where
  "Backup js snapshot destination name st =
     (case MarshalLeaderboard js snapshot of
        Inl err \<Rightarrow> (Some (EncodeError (message err)), st)
      | Inr blob \<Rightarrow>
          (case unavailable st of
             Some err \<Rightarrow> (Some (StorageWriteError (message err)), st)
           | None \<Rightarrow> (None, st\<lparr>objects := (objects st)((destination, name) \<mapsto> blob)\<rparr>)))"

text \<open>
  Modelled from the spec: section 4.3: \<open>Restore\<close> downloads the named blob and decodes it
  back into a \<open>LeaderboardResponse\<close>, failing with \<open>StorageReadError\<close> (blob missing) or
  \<open>DecodeError\<close>; it only reads the artifact.
\<close>

definition Restore ::
  "('a, 'z, 's) json \<Rightarrow> string \<Rightarrow> string \<Rightarrow> storage \<Rightarrow>
     (error + ('a, 'z) LeaderboardResponse_scheme) \<times> storage" where
  "Restore js source name st =
     (case unavailable st of
        Some err \<Rightarrow> (Inl (StorageReadError (message err)), st)
      | None \<Rightarrow>
          (case objects st (source, name) of
             None \<Rightarrow> (Inl (StorageReadError ''no such object''), st)
           | Some blob \<Rightarrow>
               (case UnmarshalLeaderboard js blob of
                  Inl err \<Rightarrow> (Inl (DecodeError (message err)), st)
                | Inr snapshot \<Rightarrow> (Inr snapshot, st))))"

text \<open>
  Modelled from the spec: the service's \<open>BackupLeaderboardData\<close> has no source file
  here. Section 4.4: it reads the current cached snapshot, fails with
  \<open>NothingToBackup\<close> if no snapshot is cached, and delegates to the codec and storage
  path; section 7: every other error is passed upward unchanged.
\<close>

definition BackupLeaderboardData ::
  "('a, 'z, 's) json \<Rightarrow> Context \<Rightarrow> string \<Rightarrow> string \<Rightarrow> storage world \<Rightarrow>
     error option \<times> storage world" where
  "BackupLeaderboardData js ctx destination name w =
     (case GetLeaderboard js ctx (redis w) of
        (Inl err, b) \<Rightarrow>
          (if err = ErrCacheMiss then (Some NothingToBackup, w\<lparr>redis := b\<rparr>)
           else (Some err, w\<lparr>redis := b\<rparr>))
      | (Inr snapshot, b) \<Rightarrow>
          (case Backup js snapshot destination name (rest w) of
             (r, st) \<Rightarrow> (r, w\<lparr>redis := b, rest := st\<rparr>)))"

text \<open>
  Modelled from the spec: the service's \<open>RestoreLeaderboardData\<close> has no source file
  here. Section 4.4: it delegates to the codec and storage path, then writes
  the result through \<open>UpdateLeaderboard\<close>.
\<close>

definition RestoreLeaderboardData ::
  "('a, 'z, 's) json \<Rightarrow> Context \<Rightarrow> string \<Rightarrow> string \<Rightarrow> storage world \<Rightarrow>
     error option \<times> storage world" where
  "RestoreLeaderboardData js ctx source name w =
     (case Restore js source name (rest w) of
        (Inl err, st) \<Rightarrow> (Some err, w\<lparr>rest := st\<rparr>)
      | (Inr snapshot, st) \<Rightarrow>
          (case UpdateLeaderboard js ctx (Some snapshot) (redis w) of
             (r, b) \<Rightarrow> (r, w\<lparr>redis := b, rest := st\<rparr>)))"

section \<open>Properties of a cache state\<close>

text \<open>
  The commands one call of \<open>UpdateLeaderboard\<close> sends when every record encodes: the
  snapshot under \<open>leaderboard\<close>, then for each player the hash field and its expiry.
\<close>

fun player_cmds :: "('a, 'z, 's) json \<Rightarrow> 'a Player list \<Rightarrow> cmd list" where
  "player_cmds js [] = []"
| "player_cmds js (p # ps) =
     HSET (''player_stats:'' @ ID p) ''stats'' (projr (MarshalAttributes js (Attributes p))) #
     EXPIRE (''player_stats:'' @ ID p) (10 * Minute) # player_cmds js ps"

definition transaction ::
  "('a, 'z, 's) json \<Rightarrow> ('a, 'z) LeaderboardResponse_scheme \<Rightarrow> cmd list" where
  "transaction js lb =
     SET ''leaderboard'' (projr (MarshalLeaderboard js lb)) (10 * Minute) #
     player_cmds js (Included lb)"

definition encodes :: "('a, 'z, 's) json \<Rightarrow> ('a, 'z) LeaderboardResponse_scheme \<Rightarrow> bool" where
  "encodes js lb =
     (\<not> isl (MarshalLeaderboard js lb) \<and>
      (\<forall>p\<in>set (Included lb). \<not> isl (MarshalAttributes js (Attributes p))))"

text \<open>The text the last entry of a player list with identifier \<open>pid\<close> is stored as.\<close>

fun last_stats :: "('a, 'z, 's) json \<Rightarrow> 'a Player list \<Rightarrow> string \<Rightarrow> string option" where
  "last_stats js [] pid = None"
| "last_stats js (p # ps) pid =
     (case last_stats js ps pid of
        Some v \<Rightarrow> Some v
      | None \<Rightarrow>
          if ID p = pid then Some (projr (MarshalAttributes js (Attributes p))) else None)"

text \<open>An entry that is a hash expiring at \<open>w\<close> whose field \<open>stats\<close> is \<open>v\<close>.\<close>

definition stats_entry :: "nat \<Rightarrow> entry option \<Rightarrow> string option \<Rightarrow> bool" where
  "stats_entry w eo v =
     (case eo of
        None \<Rightarrow> False
      | Some e \<Rightarrow>
          expires e = Some w \<and>
          (case content e of RString s \<Rightarrow> False | RHash h \<Rightarrow> h ''stats'' = v))"

definition is_string :: "entry \<Rightarrow> bool" where
  "is_string e = (case content e of RString v \<Rightarrow> True | RHash h \<Rightarrow> False)"

definition has_stats :: "entry \<Rightarrow> bool" where
  "has_stats e = (case content e of RString v \<Rightarrow> False | RHash h \<Rightarrow> h ''stats'' \<noteq> None)"

text \<open>
  The shape the store gives its keys: strings under \<open>leaderboard\<close> and
  \<open>current_season\<close>, and under every \<open>player_stats:\<close> key a hash with a field \<open>stats\<close>.
\<close>

definition well_formed :: "keyspace \<Rightarrow> bool" where
  "well_formed ks =
     ((\<forall>e. ks ''leaderboard'' = Some e \<longrightarrow> is_string e) \<and>
      (\<forall>e. ks ''current_season'' = Some e \<longrightarrow> is_string e) \<and>
      (\<forall>pid e. ks (''player_stats:'' @ pid) = Some e \<longrightarrow> has_stats e))"

text \<open>
  The cache states the store can bring about from an empty cache: through its two
  writes, with any arguments, while time passes, the cluster comes and goes and the
  nodes are slow or failing.
\<close>

inductive reachable :: "('a, 'z, 's) json \<Rightarrow> backend \<Rightarrow> bool" for js :: "('a, 'z, 's) json" where
  empty: "keys b = Map.empty \<Longrightarrow> reachable js b"
| tick: "reachable js b \<Longrightarrow> now b \<le> t \<Longrightarrow> reachable js (b\<lparr>now := t\<rparr>)"
| fault: "reachable js b \<Longrightarrow> reachable js (b\<lparr>down := d\<rparr>)"
| network: "reachable js b \<Longrightarrow> reachable js (b\<lparr>lag := l, broken := f\<rparr>)"
| leaderboard: "reachable js b \<Longrightarrow> reachable js (snd (UpdateLeaderboard js ctx lb b))"
| season: "reachable js b \<Longrightarrow> reachable js (snd (UpdateSeason js ctx sn b))"

text \<open>The commands the store sends: a \<open>SET\<close> of one of its two string keys, an \<open>HSET\<close> of the
  field \<open>stats\<close> of a player key, or a command that writes no content.\<close>

fun store_cmd :: "cmd \<Rightarrow> bool" where
  "store_cmd (SET k v d) = (k = ''leaderboard'' \<or> k = ''current_season'')"
| "store_cmd (HSET k f v) = (f = ''stats'' \<and> take 13 k = ''player_stats:'')"
| "store_cmd c = True"

text \<open>A snapshot that the serialization gives back as it was (section 4.1).\<close>

definition lossless ::
  "('a, 'z, 's) json \<Rightarrow> ('a, 'z) LeaderboardResponse_scheme \<Rightarrow> bool" where
  "lossless js x =
     (case MarshalLeaderboard js x of
        Inl err \<Rightarrow> False
      | Inr blob \<Rightarrow> UnmarshalLeaderboard js blob = Inr x)"

definition lossless_attributes :: "('a, 'z, 's) json \<Rightarrow> 'a \<Rightarrow> bool" where
  "lossless_attributes js a =
     (case MarshalAttributes js a of
        Inl err \<Rightarrow> False
      | Inr text \<Rightarrow> Unmarshal (UnmarshalAttributes js) (ZeroAttributes js) text = Inr a)"

section \<open>A concrete data model for the examples\<close>

text \<open>
  Modelled from the spec: package model and the serialization have no source file
  here. Section 3 names three attributes of a player (rank, games played,
  wins) and section 4.1 asks for a deterministic, lossless text serialization. The
  records and the small JSON dialect below are one such model; the closed examples are
  evaluated on it, and the general theorems do not depend on it.
\<close>

record PlayerAttribute =
  rank :: int
  gamesPlayed :: int
  wins :: int

fun show_nat :: "nat \<Rightarrow> string" where
  "show_nat n =
     (if n < 10 then [''0123456789'' ! n]
      else show_nat (n div 10) @ [''0123456789'' ! (n mod 10)])"

declare show_nat.simps [simp del]

definition show_int :: "int \<Rightarrow> string" where
  "show_int i = (if i < 0 then CHR ''-'' # show_nat (nat (- i)) else show_nat (nat i))"

definition digit_val :: "char \<Rightarrow> nat option" where
  "digit_val c =
     map_of [(CHR ''0'', 0), (CHR ''1'', 1), (CHR ''2'', 2), (CHR ''3'', 3), (CHR ''4'', 4),
             (CHR ''5'', 5), (CHR ''6'', 6), (CHR ''7'', 7), (CHR ''8'', 8), (CHR ''9'', 9)] c"

fun digits :: "string \<Rightarrow> nat \<Rightarrow> nat \<times> string" where
  "digits [] acc = (acc, [])"
| "digits (c # cs) acc =
     (case digit_val c of None \<Rightarrow> (acc, c # cs) | Some d \<Rightarrow> digits cs (10 * acc + d))"

definition read_nat :: "string \<Rightarrow> (nat \<times> string) option" where
  "read_nat s =
     (case s of
        [] \<Rightarrow> None
      | c # cs \<Rightarrow> (case digit_val c of None \<Rightarrow> None | Some d \<Rightarrow> Some (digits cs d)))"

definition read_int :: "string \<Rightarrow> (int \<times> string) option" where
  "read_int s =
     (case s of
        [] \<Rightarrow> None
      | c # cs \<Rightarrow>
          (if c = CHR ''-'' then map_option (apfst (\<lambda>n. - int n)) (read_nat cs)
           else map_option (apfst int) (read_nat s)))"

fun expect :: "string \<Rightarrow> string \<Rightarrow> string option" where
  "expect [] s = Some s"
| "expect (p # ps) [] = None"
| "expect (p # ps) (c # cs) = (if p = c then expect ps cs else None)"

definition escape :: "char \<Rightarrow> string" where
  "escape c = (if c = CHR 0x22 \<or> c = CHR 0x5C then [CHR 0x5C, c] else [c])"

definition show_string :: "string \<Rightarrow> string" where
  "show_string s = CHR 0x22 # concat (map escape s) @ [CHR 0x22]"

fun read_chars :: "string \<Rightarrow> (string \<times> string) option" where
  "read_chars [] = None"
| "read_chars (c # cs) =
     (if c = CHR 0x22 then Some ([], cs)
      else if c = CHR 0x5C then
        (case cs of
           [] \<Rightarrow> None
         | d # ds \<Rightarrow>
             (if d = CHR 0x22 \<or> d = CHR 0x5C
              then map_option (apfst ((#) d)) (read_chars ds) else None))
      else map_option (apfst ((#) c)) (read_chars cs))"

definition read_string :: "string \<Rightarrow> (string \<times> string) option" where
  "read_string s = Option.bind (expect [CHR 0x22] s) read_chars"

definition show_attributes :: "PlayerAttribute \<Rightarrow> string" where
  \<open>show_attributes a =
     ''{"rank":'' @ show_int (rank a) @ '',"gamesPlayed":'' @ show_int (gamesPlayed a) @
     '',"wins":'' @ show_int (wins a) @ ''}''\<close>

definition read_attributes :: "string \<Rightarrow> (PlayerAttribute \<times> string) option" where
  \<open>read_attributes s =
     Option.bind (expect ''{"rank":'' s) (\<lambda>s.
     Option.bind (read_int s) (\<lambda>(r, s).
     Option.bind (expect '',"gamesPlayed":'' s) (\<lambda>s.
     Option.bind (read_int s) (\<lambda>(g, s).
     Option.bind (expect '',"wins":'' s) (\<lambda>s.
     Option.bind (read_int s) (\<lambda>(w, s).
     Option.bind (expect ''}'' s) (\<lambda>s.
       Some (\<lparr>rank = r, gamesPlayed = g, wins = w\<rparr>, s))))))))\<close>

definition show_player :: "PlayerAttribute Player \<Rightarrow> string" where
  \<open>show_player p =
     ''{"id":'' @ show_string (ID p) @ '',"attributes":'' @ show_attributes (Attributes p) @ ''}''\<close>

fun show_players :: "PlayerAttribute Player list \<Rightarrow> string" where
  "show_players [] = []"
| "show_players [p] = show_player p"
| "show_players (p # q # ps) = show_player p @ '','' @ show_players (q # ps)"

definition read_player :: "string \<Rightarrow> (PlayerAttribute Player \<times> string) option" where
  \<open>read_player s =
     Option.bind (expect ''{"id":'' s) (\<lambda>s.
     Option.bind (read_string s) (\<lambda>(i, s).
     Option.bind (expect '',"attributes":'' s) (\<lambda>s.
     Option.bind (read_attributes s) (\<lambda>(a, s).
     Option.bind (expect ''}'' s) (\<lambda>s.
       Some (\<lparr>ID = i, Attributes = a\<rparr>, s))))))\<close>

text \<open>The players of an array, one after the other; \<open>n\<close> bounds their number.\<close>

fun read_players :: "nat \<Rightarrow> string \<Rightarrow> (PlayerAttribute Player list \<times> string) option" where
  "read_players 0 s = None"
| "read_players (Suc n) s =
     Option.bind (read_player s) (\<lambda>(p, s).
       case s of
         [] \<Rightarrow> Some ([p], s)
       | c # cs \<Rightarrow>
           (if c = CHR '','' then map_option (apfst ((#) p)) (read_players n cs)
            else Some ([p], s)))"

definition show_leaderboard :: "PlayerAttribute LeaderboardResponse \<Rightarrow> string" where
  \<open>show_leaderboard lb = ''{"included":['' @ show_players (Included lb) @ '']}''\<close>

definition read_leaderboard :: "string \<Rightarrow> PlayerAttribute LeaderboardResponse option" where
  \<open>read_leaderboard s =
     Option.bind (expect ''{"included":['' s) (\<lambda>s.
     Option.bind
       (case expect '']'' s of Some r \<Rightarrow> Some ([], s) | None \<Rightarrow> read_players (length s) s)
       (\<lambda>(ps, s). if s = '']}'' then Some \<lparr>Included = ps\<rparr> else None))\<close>

text \<open>Strings that cannot continue a number, and strings that cannot continue an array.\<close>

definition no_digit :: "string \<Rightarrow> bool" where
  "no_digit r = (case r of [] \<Rightarrow> True | c # cs \<Rightarrow> digit_val c = None)"

definition no_comma :: "string \<Rightarrow> bool" where
  "no_comma r = (case r of [] \<Rightarrow> True | c # cs \<Rightarrow> c \<noteq> CHR '','')"

definition decoded :: "('v \<times> string) option \<Rightarrow> error + 'v" where
  "decoded r =
     (case r of
        None \<Rightarrow> Inl (Error ''invalid character'')
      | Some (v, s) \<Rightarrow> if s = [] then Inr v else Inl (Error ''invalid character after top-level value''))"

definition encoding_json :: "(PlayerAttribute, unit, string) json" where
  "encoding_json =
     \<lparr>MarshalLeaderboard = (\<lambda>lb. Inr (show_leaderboard lb)),
      UnmarshalLeaderboard = (\<lambda>s. decoded (map_option (\<lambda>lb. (lb, [])) (read_leaderboard s))),
      MarshalAttributes = (\<lambda>a. Inr (show_attributes a)),
      UnmarshalAttributes = (\<lambda>s. decoded (read_attributes s)),
      MarshalSeason = (\<lambda>s. Inr (show_string s)),
      UnmarshalSeason = (\<lambda>s. decoded (read_string s)),
      ZeroLeaderboard = \<lparr>Included = []\<rparr>,
      ZeroAttributes = \<lparr>rank = 0, gamesPlayed = 0, wins = 0\<rparr>,
      ZeroSeason = []\<rparr>"

text \<open>A serialization that refuses every attribute record, as \<open>json.Marshal\<close> refuses
  a value it does not support.\<close>

definition unsupported_json :: "(PlayerAttribute, unit, string) json" where
  "unsupported_json =
     encoding_json\<lparr>MarshalAttributes := (\<lambda>a. Inl (Error ''json: unsupported value''))\<rparr>"

text \<open>The scenario of section 8: two players, and a later snapshot without the first.\<close>

definition p1 :: "PlayerAttribute Player" where
  "p1 = \<lparr>ID = ''p1'', Attributes = \<lparr>rank = 3, gamesPlayed = 50, wins = 5\<rparr>\<rparr>"

definition p2 :: "PlayerAttribute Player" where
  "p2 = \<lparr>ID = ''p2'', Attributes = \<lparr>rank = 1, gamesPlayed = 80, wins = 20\<rparr>\<rparr>"

definition snapshot :: "PlayerAttribute LeaderboardResponse" where
  "snapshot = \<lparr>Included = [p1, p2]\<rparr>"

definition later_snapshot :: "PlayerAttribute LeaderboardResponse" where
  "later_snapshot = \<lparr>Included = [p2]\<rparr>"

text \<open>
  The hash slots of the keys of the examples, as the cluster assigns them (the CRC16 of
  the key modulo 16384): the snapshot's key and the two players' keys lie in three
  different slots.
\<close>

definition cluster_slot :: "string \<Rightarrow> nat" where
  "cluster_slot k =
     (if k = ''leaderboard'' then 16274
      else if k = ''player_stats:p1'' then 838
      else if k = ''player_stats:p2'' then 13093
      else if k = ''player_stats:p3'' then 8964
      else if k = ''current_season'' then 6133
      else 0)"

definition empty_cache :: backend where
  "empty_cache =
     \<lparr>keys = Map.empty, now = 0, down = None, slot = cluster_slot, lag = (\<lambda>s. 0),
      broken = (\<lambda>s. None), strict = False\<rparr>"

definition empty_world :: "storage world" where
  "empty_world =
     \<lparr>redis = empty_cache, logged = [], clock = ''20240101_120000'',
      rest = \<lparr>objects = Map.empty, unavailable = None\<rparr>\<rparr>"

text \<open>The cache after the first snapshot, after the later one five minutes on, and
  after the season is stored beside the first.\<close>

definition first_cache :: backend where
  "first_cache = snd (UpdateLeaderboard encoding_json Live (Some snapshot) empty_cache)"

definition second_cache :: backend where
  "second_cache =
     snd (UpdateLeaderboard encoding_json Live (Some later_snapshot) (first_cache\<lparr>now := 5 * Minute\<rparr>))"

definition season_cache :: backend where
  "season_cache = snd (UpdateSeason encoding_json Live (Some ''2024-01'') first_cache)"

definition first_world :: "storage world" where
  "first_world = empty_world\<lparr>redis := first_cache\<rparr>"

text \<open>A request without a \<open>file\<close> parameter, and a request for player \<open>p2\<close> whose context
  is already canceled.\<close>

definition no_file_request :: request where
  "no_file_request = \<lparr>req_ctx = Live, params = Map.empty, query = Map.empty\<rparr>"

definition canceled_request :: request where
  "canceled_request =
     \<lparr>req_ctx = Done Canceled, params = [''playerID'' \<mapsto> ''p2''], query = Map.empty\<rparr>"

text \<open>
  A service for the examples that serves from the cache alone and hands the context it
  is given on to the store.
\<close>

definition cache_service ::
  "(PlayerAttribute LeaderboardResponse, string, storage world) LeaderboardService" where
  "cache_service =
     \<lparr>service_GetCurrentSeason =
        (\<lambda>ctx w. case GetSeason encoding_json ctx (redis w) of (r, b) \<Rightarrow> (r, w\<lparr>redis := b\<rparr>)),
      service_GetCurrentLeaderboard =
        (\<lambda>ctx w. case GetLeaderboard encoding_json ctx (redis w) of (r, b) \<Rightarrow> (r, w\<lparr>redis := b\<rparr>)),
      service_GetPlayerStats =
        (\<lambda>ctx playerID w.
           case GetPlayerStats encoding_json ctx playerID (redis w) of
             (Inl err, b) \<Rightarrow> (Inl err, w\<lparr>redis := b\<rparr>)
           | (Inr a, b) \<Rightarrow> (Inr (rank a, gamesPlayed a, wins a), w\<lparr>redis := b\<rparr>)),
      service_BackupLeaderboardData = BackupLeaderboardData encoding_json,
      service_RestoreLeaderboardData = RestoreLeaderboardData encoding_json\<rparr>"

text \<open>
  The cluster with the node of the slot of \<open>player_stats:p2\<close> failing, and the cache
  that \<open>UpdateLeaderboard\<close> of the two-player snapshot leaves there; the cluster with
  that node two seconds behind the others, and the cache left there.
\<close>

definition torn_cluster :: backend where
  "torn_cluster =
     empty_cache\<lparr>broken := (\<lambda>s. if s = 13093 then Some (Error ''connection refused'') else None)\<rparr>"

definition torn_cache :: backend where
  "torn_cache = snd (UpdateLeaderboard encoding_json Live (Some snapshot) torn_cluster)"

definition slow_cluster :: backend where
  "slow_cluster = empty_cache\<lparr>lag := (\<lambda>s. if s = 13093 then 2 * Second else 0)\<rparr>"

definition slow_cache :: backend where
  "slow_cache = snd (UpdateLeaderboard encoding_json Live (Some snapshot) slow_cluster)"

text \<open>
  The cache after \<open>UpdateSeason\<close> of a nil season, and a cache whose key
  \<open>leaderboard\<close> holds bytes that are no JSON text.
\<close>

definition null_cache :: backend where
  "null_cache = snd (UpdateSeason encoding_json Live None empty_cache)"

definition garbage_cache :: backend where
  "garbage_cache =
     empty_cache\<lparr>keys := [''leaderboard'' \<mapsto> \<lparr>content = RString ''<html>'', expires = None\<rparr>]\<rparr>"

section \<open>The pipeline of UpdateLeaderboard\<close>

lemma queue_players_ok:
  "\<forall>p\<in>set ps. \<not> isl (MarshalAttributes js (Attributes p)) \<Longrightarrow>
   queue_players js ps pipe = Inr (pipe @ player_cmds js ps)"
  by (induction ps arbitrary: pipe) (auto split: sum.splits)

lemma queue_players_fail:
  "\<exists>p\<in>set ps. isl (MarshalAttributes js (Attributes p)) \<Longrightarrow>
   \<exists>e. queue_players js ps pipe = Inl (Errorf ''redisclient - error marshaling player stats: '' e)"
  by (induction ps arbitrary: pipe) (auto split: sum.splits)

lemma UpdateLeaderboard_encodes:
  assumes "encodes js lb"
  shows "UpdateLeaderboard js ctx (Some lb) b =
           (case Exec ctx (transaction js lb) b of
              (Inl err, b') \<Rightarrow>
                (Some (Errorf ''redisclient - error updating leaderboard in Redis: '' err), b')
            | (Inr replies, b') \<Rightarrow> (None, b'))"
proof -
  from assms obtain j where j: "MarshalLeaderboard js lb = Inr j"
    by (cases "MarshalLeaderboard js lb") (auto simp: encodes_def)
  from assms have "\<forall>p\<in>set (Included lb). \<not> isl (MarshalAttributes js (Attributes p))"
    by (simp add: encodes_def)
  then have "queue_players js (Included lb) [SET ''leaderboard'' j (10 * Minute)] =
               Inr ([SET ''leaderboard'' j (10 * Minute)] @ player_cmds js (Included lb))"
    by (rule queue_players_ok)
  then show ?thesis
    by (simp add: UpdateLeaderboard_def Marshal_def j transaction_def)
qed

lemma UpdateLeaderboard_not_encodes:
  assumes "\<not> encodes js lb"
  shows "\<exists>e. UpdateLeaderboard js ctx (Some lb) b =
               (Some (Errorf ''redisclient - error marshaling entire leaderboard data: '' e), b) \<or>
             UpdateLeaderboard js ctx (Some lb) b =
               (Some (Errorf ''redisclient - error marshaling player stats: '' e), b)"
proof (cases "MarshalLeaderboard js lb")
  case (Inl e)
  then show ?thesis by (auto simp: UpdateLeaderboard_def Marshal_def)
next
  case (Inr j)
  with assms have "\<exists>p\<in>set (Included lb). isl (MarshalAttributes js (Attributes p))"
    by (auto simp: encodes_def)
  from queue_players_fail[OF this] obtain e where
    "queue_players js (Included lb) [SET ''leaderboard'' j (10 * Minute)] =
       Inl (Errorf ''redisclient - error marshaling player stats: '' e)" by blast
  then show ?thesis by (auto simp: UpdateLeaderboard_def Marshal_def Inr)
qed

lemma Exec_Inr:
  assumes "Exec ctx pipe b = (Inr rs, b')"
  shows "ctx = Live \<and> down b = None \<and> b' = b\<lparr>keys := keys b'\<rparr> \<and>
         (\<exists>rs'. run_pipeline b pipe (keys b) = (rs', keys b') \<and> first_error rs' = None)"
  using assms
  by (auto simp: Exec_def split: Context.splits option.splits prod.splits if_splits)

lemma UpdateLeaderboard_None:
  assumes "UpdateLeaderboard js ctx (Some lb) b = (None, b')"
  shows "encodes js lb \<and> ctx = Live \<and> down b = None \<and> b' = b\<lparr>keys := keys b'\<rparr> \<and>
         (\<exists>rs. run_pipeline b (transaction js lb) (keys b) = (rs, keys b') \<and> first_error rs = None)"
proof -
  have enc: "encodes js lb"
  proof (rule ccontr)
    assume "\<not> encodes js lb"
    from UpdateLeaderboard_not_encodes[OF this, of ctx b] assms show False by auto
  qed
  from assms UpdateLeaderboard_encodes[OF enc, of ctx b]
  obtain rs where "Exec ctx (transaction js lb) b = (Inr rs, b')"
    by (auto split: prod.splits sum.splits)
  from Exec_Inr[OF this] enc show ?thesis by blast
qed

section \<open>What the pipeline leaves in the key space\<close>

lemma last_stats_None: "last_stats js ps pid = None \<longleftrightarrow> pid \<notin> ID ` set ps"
  by (induction ps) (auto split: option.splits)

lemma last_stats_Some:
  "last_stats js ps pid = Some v \<Longrightarrow>
   \<exists>q\<in>set ps. ID q = pid \<and> v = projr (MarshalAttributes js (Attributes q))"
  by (induction ps) (auto split: option.splits if_splits)

lemma last_stats_distinct:
  "distinct (map ID ps) \<Longrightarrow> p \<in> set ps \<Longrightarrow>
   last_stats js ps (ID p) = Some (projr (MarshalAttributes js (Attributes p)))"
proof (induction ps)
  case Nil
  then show ?case by simp
next
  case (Cons q ps)
  show ?case
  proof (cases "p \<in> set ps")
    case True
    with Cons show ?thesis by simp
  next
    case False
    with Cons.prems have pq: "p = q" by simp
    from Cons.prems(1) have "ID q \<notin> ID ` set ps" by simp
    then have "last_stats js ps (ID q) = None" by (simp add: last_stats_None)
    with pq show ?thesis by simp
  qed
qed

lemma run_pair:
  assumes "run_pipeline b [HSET k ''stats'' v, EXPIRE k (10 * Minute)] ks = (rs, ks')"
    and "first_error rs = None"
  shows "stats_entry (instant b k + 10 * Minute) (ks' k) (Some v)"
    and "\<And>k'. k' \<noteq> k \<Longrightarrow> ks' k' = ks k'"
  using assms
  by (auto simp: run_queued_def stats_entry_def lookup_def expired_def Minute_def Second_def
           split: option.splits rvalue.splits if_splits prod.splits)

lemma run_player_cmds:
  assumes "run_pipeline b (player_cmds js ps) ks = (rs, ks')" and "first_error rs = None"
  shows "(\<forall>k. (\<forall>p\<in>set ps. k \<noteq> ''player_stats:'' @ ID p) \<longrightarrow> ks' k = ks k) \<and>
         (\<forall>pid. pid \<in> ID ` set ps \<longrightarrow>
            stats_entry (instant b (''player_stats:'' @ pid) + 10 * Minute)
              (ks' (''player_stats:'' @ pid)) (last_stats js ps pid))"
  using assms
proof (induction ps arbitrary: ks rs ks')
  case Nil
  then show ?case by simp
next
  case (Cons p ps)
  let ?k = "''player_stats:'' @ ID p"
  let ?v = "projr (MarshalAttributes js (Attributes p))"
  obtain r1 k1 where h1: "run_queued b (HSET ?k ''stats'' ?v) ks = (r1, k1)" by force
  obtain r2 k2 where h2: "run_queued b (EXPIRE ?k (10 * Minute)) k1 = (r2, k2)" by force
  obtain rs3 k3 where h3: "run_pipeline b (player_cmds js ps) k2 = (rs3, k3)" by force
  from Cons.prems(1) h1 h2 h3 have eq: "rs = r1 # r2 # rs3" "ks' = k3"
    by auto
  from Cons.prems(2) eq have fe: "first_error [r1, r2] = None" "first_error rs3 = None"
    by (cases r1; cases r2; simp)+
  from h1 h2
  have pair: "run_pipeline b [HSET ?k ''stats'' ?v, EXPIRE ?k (10 * Minute)] ks = ([r1, r2], k2)"
    by simp
  note P = run_pair[OF pair fe(1)]
  note IH = Cons.IH[OF h3 fe(2)]
  show ?case
  proof (intro conjI allI impI)
    fix k assume "\<forall>q\<in>set (p # ps). k \<noteq> ''player_stats:'' @ ID q"
    then show "ks' k = ks k" using IH P(2) eq by auto
  next
    fix pid assume in': "pid \<in> ID ` set (p # ps)"
    show "stats_entry (instant b (''player_stats:'' @ pid) + 10 * Minute)
            (ks' (''player_stats:'' @ pid)) (last_stats js (p # ps) pid)"
    proof (cases "pid \<in> ID ` set ps")
      case True
      then have "last_stats js ps pid \<noteq> None" by (simp add: last_stats_None)
      then show ?thesis using IH True eq by (auto split: option.splits)
    next
      case False
      then have n: "last_stats js ps pid = None" by (simp add: last_stats_None)
      from False in' have pid: "pid = ID p" by auto
      from False have "\<forall>q\<in>set ps. ''player_stats:'' @ pid \<noteq> ''player_stats:'' @ ID q"
        by auto
      with IH eq have "ks' (''player_stats:'' @ pid) = k2 (''player_stats:'' @ pid)" by blast
      then show ?thesis using n P(1) pid by simp
    qed
  qed
qed

lemma run_transaction:
  assumes "run_pipeline b (transaction js lb) ks = (rs, ks')" and "first_error rs = None"
  shows "ks' ''leaderboard'' =
           Some \<lparr>content = RString (projr (MarshalLeaderboard js lb)),
                 expires = Some (instant b ''leaderboard'' + 10 * Minute)\<rparr>"
    and "\<forall>pid\<in>ID ` set (Included lb).
           stats_entry (instant b (''player_stats:'' @ pid) + 10 * Minute)
             (ks' (''player_stats:'' @ pid)) (last_stats js (Included lb) pid)"
    and "\<forall>k. k \<noteq> ''leaderboard'' \<longrightarrow> (\<forall>p\<in>set (Included lb). k \<noteq> ''player_stats:'' @ ID p) \<longrightarrow>
           ks' k = ks k"
proof -
  let ?j = "projr (MarshalLeaderboard js lb)"
  let ?ks1 = "ks(''leaderboard'' \<mapsto>
                \<lparr>content = RString ?j, expires = Some (instant b ''leaderboard'' + 10 * Minute)\<rparr>)"
  obtain r1 k1 where q: "run_queued b (SET ''leaderboard'' ?j (10 * Minute)) ks = (r1, k1)"
    by force
  obtain rs2 where r2: "run_pipeline b (player_cmds js (Included lb)) k1 = (rs2, ks')"
    and rs: "rs = r1 # rs2"
    using assms(1) q by (auto simp: transaction_def split: prod.splits)
  from assms(2) rs obtain ok where r1: "r1 = Inr ok" and fe: "first_error rs2 = None"
    by (cases r1) simp_all
  from q r1 have k1: "k1 = ?ks1"
    by (auto simp: run_queued_def Minute_def Second_def split: option.splits)
  note R = run_player_cmds[OF r2 fe]
  from R k1 show "ks' ''leaderboard'' =
           Some \<lparr>content = RString ?j, expires = Some (instant b ''leaderboard'' + 10 * Minute)\<rparr>"
    by simp
  from R show "\<forall>pid\<in>ID ` set (Included lb).
           stats_entry (instant b (''player_stats:'' @ pid) + 10 * Minute)
             (ks' (''player_stats:'' @ pid)) (last_stats js (Included lb) pid)" by blast
  from R k1 show "\<forall>k. k \<noteq> ''leaderboard'' \<longrightarrow> (\<forall>p\<in>set (Included lb). k \<noteq> ''player_stats:'' @ ID p) \<longrightarrow>
           ks' k = ks k" by simp
qed

text \<open>The effect of a successful call, in one place.\<close>

lemma UpdateLeaderboard_effect:
  assumes "UpdateLeaderboard js ctx (Some lb) b = (None, b')"
  shows "now b' = now b" and "down b' = down b" and "ctx = Live" and "down b = None"
    and "encodes js lb"
    and "keys b' ''leaderboard'' =
           Some \<lparr>content = RString (projr (MarshalLeaderboard js lb)),
                 expires = Some (instant b ''leaderboard'' + 10 * Minute)\<rparr>"
    and "\<forall>pid\<in>ID ` set (Included lb).
           stats_entry (instant b (''player_stats:'' @ pid) + 10 * Minute)
             (keys b' (''player_stats:'' @ pid)) (last_stats js (Included lb) pid)"
    and "\<forall>k. k \<noteq> ''leaderboard'' \<longrightarrow> (\<forall>p\<in>set (Included lb). k \<noteq> ''player_stats:'' @ ID p) \<longrightarrow>
           keys b' k = keys b k"
proof -
  from UpdateLeaderboard_None[OF assms] obtain rs where
    e: "encodes js lb" "ctx = Live" "down b = None" and b': "b' = b\<lparr>keys := keys b'\<rparr>" and
    r: "run_pipeline b (transaction js lb) (keys b) = (rs, keys b')" "first_error rs = None"
    by blast
  from b' have "now b' = now (b\<lparr>keys := keys b'\<rparr>)" "down b' = down (b\<lparr>keys := keys b'\<rparr>)"
    by simp_all
  then show "now b' = now b" "down b' = down b" by simp_all
  from e show "ctx = Live" "down b = None" "encodes js lb" by simp_all
  from run_transaction[OF r] show
    "keys b' ''leaderboard'' =
           Some \<lparr>content = RString (projr (MarshalLeaderboard js lb)),
                 expires = Some (instant b ''leaderboard'' + 10 * Minute)\<rparr>"
    "\<forall>pid\<in>ID ` set (Included lb).
           stats_entry (instant b (''player_stats:'' @ pid) + 10 * Minute)
             (keys b' (''player_stats:'' @ pid)) (last_stats js (Included lb) pid)"
    "\<forall>k. k \<noteq> ''leaderboard'' \<longrightarrow> (\<forall>p\<in>set (Included lb). k \<noteq> ''player_stats:'' @ ID p) \<longrightarrow>
           keys b' k = keys b k"
    by blast+
qed

lemma stats_entryD:
  "stats_entry w eo v \<Longrightarrow>
   \<exists>e h. eo = Some e \<and> content e = RHash h \<and> expires e = Some w \<and> h ''stats'' = v"
  by (cases eo) (auto simp: stats_entry_def split: rvalue.splits)

section \<open>Evaluating the examples\<close>

lemma show_nat_numeral [simp]:
  "show_nat (numeral k) =
     (if (numeral k :: nat) < 10 then [''0123456789'' ! (numeral k)]
      else show_nat (numeral k div 10) @ [''0123456789'' ! (numeral k mod 10)])"
  by (subst show_nat.simps) simp

lemma show_nat_small [simp]: "show_nat 0 = ''0''" "show_nat (Suc 0) = ''1''"
  by (simp_all add: show_nat.simps)

lemmas json_simps =
  encoding_json_def unsupported_json_def show_leaderboard_def show_player_def show_string_def
  escape_def read_leaderboard_def read_player_def read_string_def show_attributes_def
  read_attributes_def read_nat_def read_int_def show_int_def digit_val_def decoded_def

lemmas example_simps = snapshot_def later_snapshot_def p1_def p2_def empty_cache_def

lemmas store_simps =
  UpdateLeaderboard_def UpdateSeason_def GetLeaderboard_def GetPlayerStats_def GetSeason_def
  Marshal_def Unmarshal_def Exec_def Process_def run_queued_def instant_def one_slot_def
  slots_of_def cluster_slot_def lookup_def expired_def Errorf_def Minute_def Second_def Hour_def

lemma Process_GET: "snd (Process ctx (GET k) b) = b"
  by (simp add: Process_def split: Context.splits option.splits rvalue.splits)

lemma Process_HGET: "snd (Process ctx (HGET k f) b) = b"
  by (simp add: Process_def split: Context.splits option.splits rvalue.splits)

section \<open>The shape of reachable cache states\<close>

lemma player_key_take [simp]: "take 13 (''player_stats:'' @ pid) = ''player_stats:''"
  by simp

lemma not_player_key [simp]:
  "''leaderboard'' \<noteq> ''player_stats:'' @ pid" "''current_season'' \<noteq> ''player_stats:'' @ pid"
  by simp_all

lemma well_formed_upd_string:
  "well_formed ks \<Longrightarrow> k = ''leaderboard'' \<or> k = ''current_season'' \<Longrightarrow> is_string e \<Longrightarrow>
   well_formed (ks(k \<mapsto> e))"
  by (auto simp: well_formed_def)

lemma well_formed_upd_stats:
  "well_formed ks \<Longrightarrow> has_stats e \<Longrightarrow> take 13 k = ''player_stats:'' \<Longrightarrow>
   well_formed (ks(k \<mapsto> e))"
  by (auto simp: well_formed_def)

lemma well_formed_upd_same:
  "well_formed ks \<Longrightarrow> ks k = Some e \<Longrightarrow> content e' = content e \<Longrightarrow> well_formed (ks(k \<mapsto> e'))"
  by (auto simp: well_formed_def is_string_def has_stats_def)

lemma well_formed_delete: "well_formed ks \<Longrightarrow> well_formed (ks(k := None))"
  by (auto simp: well_formed_def)

lemma lookup_Some: "lookup t ks k = Some e \<Longrightarrow> ks k = Some e"
  by (auto simp: lookup_def split: option.splits if_splits)

lemma run_well_formed:
  assumes "well_formed ks" and "store_cmd c"
  shows "well_formed (snd (run t c ks))"
proof (cases c)
  case PING
  with assms show ?thesis by simp
next
  case (GET k)
  with assms show ?thesis by (simp split: option.splits rvalue.splits)
next
  case (SET k v d)
  with assms show ?thesis by (auto intro!: well_formed_upd_string simp: is_string_def)
next
  case (HGET k f)
  with assms show ?thesis by (simp split: option.splits rvalue.splits)
next
  case (HSET k f v)
  with assms have k: "take 13 k = ''player_stats:''" and f: "f = ''stats''"
    by auto
  show ?thesis
  proof (cases "lookup t ks k")
    case None
    with HSET assms(1) k f show ?thesis
      by (simp add: well_formed_upd_stats has_stats_def)
  next
    case (Some e)
    show ?thesis
    proof (cases "content e")
      case (RString s)
      with Some HSET assms(1) show ?thesis by simp
    next
      case (RHash h)
      with Some HSET assms(1) k f show ?thesis
        by (simp add: well_formed_upd_stats has_stats_def)
    qed
  qed
next
  case (EXPIRE k d)
  show ?thesis
  proof (cases "lookup t ks k")
    case None
    with EXPIRE assms(1) show ?thesis by simp
  next
    case (Some e)
    then have "ks k = Some e" by (rule lookup_Some)
    with Some EXPIRE assms(1) show ?thesis
      by (auto intro: well_formed_delete well_formed_upd_same)
  qed
qed

lemma run_all_well_formed:
  "well_formed ks \<Longrightarrow> list_all store_cmd cs \<Longrightarrow> well_formed (snd (run_all t cs ks))"
proof (induction cs arbitrary: ks)
  case Nil
  then show ?case by simp
next
  case (Cons c cs)
  from Cons.prems have "well_formed (snd (run t c ks))" by (simp add: run_well_formed)
  with Cons.IH Cons.prems(2) have "well_formed (snd (run_all t cs (snd (run t c ks))))" by simp
  then show ?case by (simp add: split_beta del: run.simps)
qed

lemma run_pipeline_well_formed:
  "well_formed ks \<Longrightarrow> list_all store_cmd cs \<Longrightarrow> well_formed (snd (run_pipeline b cs ks))"
proof (induction cs arbitrary: ks)
  case Nil
  then show ?case by simp
next
  case (Cons c cs)
  from Cons.prems have "well_formed (snd (run_queued b c ks))"
    by (simp add: run_queued_def run_well_formed split: option.splits)
  with Cons.IH Cons.prems(2) have "well_formed (snd (run_pipeline b cs (snd (run_queued b c ks))))"
    by simp
  then show ?case by (simp add: split_beta)
qed

lemma Exec_well_formed:
  "well_formed (keys b) \<Longrightarrow> list_all store_cmd pipe \<Longrightarrow> well_formed (keys (snd (Exec ctx pipe b)))"
  using run_pipeline_well_formed[of "keys b" pipe b]
  by (auto simp: Exec_def split: Context.splits option.splits prod.splits)

lemma Process_well_formed:
  "well_formed (keys b) \<Longrightarrow> store_cmd c \<Longrightarrow> well_formed (keys (snd (Process ctx c b)))"
  using run_well_formed[of "keys b" c "now b"]
  by (auto simp: Process_def split: Context.splits option.splits prod.splits)

lemma queue_players_store_cmd:
  "queue_players js ps pipe = Inr pipe' \<Longrightarrow> list_all store_cmd pipe \<Longrightarrow> list_all store_cmd pipe'"
  by (induction ps arbitrary: pipe) (auto split: sum.splits)

lemma UpdateLeaderboard_well_formed:
  assumes "well_formed (keys b)"
  shows "well_formed (keys (snd (UpdateLeaderboard js ctx lb b)))"
proof (cases lb)
  case None
  with assms show ?thesis by (simp add: UpdateLeaderboard_def Marshal_def)
next
  case (Some l)
  show ?thesis
  proof (cases "MarshalLeaderboard js l")
    case (Inl e)
    with Some assms show ?thesis by (simp add: UpdateLeaderboard_def Marshal_def)
  next
    case (Inr j)
    show ?thesis
    proof (cases "queue_players js (Included l) [SET ''leaderboard'' j (10 * Minute)]")
      case (Inl e)
      with Some Inr assms show ?thesis by (simp add: UpdateLeaderboard_def Marshal_def)
    next
      case pipe: (Inr pipe)
      from queue_players_store_cmd[OF pipe] have "list_all store_cmd pipe" by simp
      from Exec_well_formed[OF assms this, of ctx] Some Inr pipe show ?thesis
        by (auto simp: UpdateLeaderboard_def Marshal_def split: prod.splits sum.splits)
    qed
  qed
qed

lemma UpdateSeason_well_formed:
  assumes "well_formed (keys b)"
  shows "well_formed (keys (snd (UpdateSeason js ctx sn b)))"
proof (cases "Marshal (MarshalSeason js) sn")
  case (Inl e)
  with assms show ?thesis by (simp add: UpdateSeason_def)
next
  case (Inr d)
  from Process_well_formed[OF assms, of "SET ''current_season'' d (24 * Hour)" ctx] Inr
  show ?thesis by (auto simp: UpdateSeason_def split: prod.splits sum.splits)
qed

lemma reachable_well_formed: "reachable js b \<Longrightarrow> well_formed (keys b)"
proof (induction rule: reachable.induct)
  case (empty b)
  then show ?case by (simp add: well_formed_def)
next
  case (tick b t)
  then show ?case by simp
next
  case (fault b d)
  then show ?case by simp
next
  case (network b l f)
  then show ?case by simp
next
  case (leaderboard b ctx lb)
  then show ?case by (simp add: UpdateLeaderboard_well_formed)
next
  case (season b ctx sn)
  then show ?case by (simp add: UpdateSeason_well_formed)
qed

section \<open>What the reads return\<close>

lemma WRONGTYPE_not_Nil [simp]: "WRONGTYPE \<noteq> RedisNil" "WRONGTYPE \<noteq> ErrCacheMiss"
  by (simp_all add: WRONGTYPE_def)

lemma Errorf_not_miss [simp]: "Errorf p e \<noteq> ErrCacheMiss" "Errorf p e \<noteq> RedisNil"
  by (simp_all add: Errorf_def)

lemma GetLeaderboard_result:
  assumes "down b = None"
  shows "fst (GetLeaderboard js Live b) =
           (case lookup (now b) (keys b) ''leaderboard'' of
              None \<Rightarrow> Inl ErrCacheMiss
            | Some e \<Rightarrow>
                (case content e of
                   RHash h \<Rightarrow> Inl WRONGTYPE
                 | RString data \<Rightarrow>
                     (case Unmarshal (UnmarshalLeaderboard js) (ZeroLeaderboard js) data of
                        Inl err \<Rightarrow>
                          Inl (Errorf ''redisclient - error unmarshalling leaderboard data: '' err)
                      | Inr v \<Rightarrow> Inr v)))"
  using assms
  by (simp add: GetLeaderboard_def Process_def split: option.splits rvalue.splits sum.splits)

lemma GetSeason_result:
  assumes "down b = None"
  shows "fst (GetSeason js Live b) =
           (case lookup (now b) (keys b) ''current_season'' of
              None \<Rightarrow> Inl ErrCacheMiss
            | Some e \<Rightarrow>
                (case content e of
                   RHash h \<Rightarrow> Inl WRONGTYPE
                 | RString data \<Rightarrow>
                     (case Unmarshal (UnmarshalSeason js) (ZeroSeason js) data of
                        Inl err \<Rightarrow>
                          Inl (Errorf ''redisclient - error unmarshalling season data: '' err)
                      | Inr v \<Rightarrow> Inr v)))"
  using assms
  by (simp add: GetSeason_def Process_def split: option.splits rvalue.splits sum.splits)

lemma GetPlayerStats_result:
  assumes "down b = None"
  shows "fst (GetPlayerStats js Live playerID b) =
           (case lookup (now b) (keys b) (''player_stats:'' @ playerID) of
              None \<Rightarrow> Inl ErrCacheMiss
            | Some e \<Rightarrow>
                (case content e of
                   RString v \<Rightarrow> Inl WRONGTYPE
                 | RHash h \<Rightarrow>
                     (case h ''stats'' of
                        None \<Rightarrow> Inl ErrCacheMiss
                      | Some data \<Rightarrow>
                          (case Unmarshal (UnmarshalAttributes js) (ZeroAttributes js) data of
                             Inl err \<Rightarrow>
                               Inl (Errorf ''redisclient - error unmarshalling player stats: '' err)
                           | Inr v \<Rightarrow> Inr v))))"
  using assms
  by (simp add: GetPlayerStats_def Process_def split: option.splits rvalue.splits sum.splits)

lemma lookup_fresh:
  "ks k = Some e \<Longrightarrow> expires e = Some (t + d) \<Longrightarrow> lookup t ks k = Some e"
  by (simp add: lookup_def expired_def)

lemma lookup_expiry:
  "ks k = Some e \<Longrightarrow> expires e = Some w \<Longrightarrow> (lookup t ks k \<noteq> None) = (t \<le> w)"
  by (auto simp: lookup_def expired_def)

lemma not_isl_projr: "\<not> isl x \<Longrightarrow> x = Inr (projr x)"
  by (cases x) simp_all

lemma GetLeaderboard_frame: "snd (GetLeaderboard js ctx b) = b"
  using Process_GET[of ctx "''leaderboard''" b]
  by (auto simp: GetLeaderboard_def split: prod.splits sum.splits)

lemma GetPlayerStats_frame: "snd (GetPlayerStats js ctx playerID b) = b"
  using Process_HGET[of ctx "''player_stats:'' @ playerID" "''stats''" b]
  by (auto simp: GetPlayerStats_def split: prod.splits sum.splits)

lemma GetSeason_frame: "snd (GetSeason js ctx b) = b"
  using Process_GET[of ctx "''current_season''" b]
  by (auto simp: GetSeason_def split: prod.splits sum.splits)

section \<open>The examples, evaluated\<close>

lemma first_update_ok:
  "UpdateLeaderboard encoding_json Live (Some snapshot) empty_cache = (None, first_cache)"
proof -
  have "fst (UpdateLeaderboard encoding_json Live (Some snapshot) empty_cache) = None"
    by (simp add: store_simps json_simps example_simps)
  then show ?thesis by (simp add: first_cache_def prod_eq_iff)
qed

lemma second_update_ok:
  "UpdateLeaderboard encoding_json Live (Some later_snapshot) (first_cache\<lparr>now := 5 * Minute\<rparr>) =
     (None, second_cache)"
proof -
  have "fst (UpdateLeaderboard encoding_json Live (Some later_snapshot)
               (first_cache\<lparr>now := 5 * Minute\<rparr>)) = None"
    by (simp add: first_cache_def store_simps json_simps example_simps)
  then show ?thesis by (simp add: second_cache_def prod_eq_iff)
qed

lemma lossless_attributes_examples:
  "lossless_attributes encoding_json (Attributes p1)"
  "lossless_attributes encoding_json (Attributes p2)"
  by (simp_all add: lossless_attributes_def Unmarshal_def json_simps example_simps)

lemma season_update_ok:
  "UpdateSeason encoding_json Live (Some ''2024-01'') first_cache = (None, season_cache)"
proof -
  have "fst (UpdateSeason encoding_json Live (Some ''2024-01'') first_cache) = None"
    by (simp add: first_cache_def store_simps json_simps example_simps)
  then show ?thesis by (simp add: season_cache_def prod_eq_iff)
qed

lemma reachable_season_cache: "reachable encoding_json season_cache"
proof -
  have "reachable encoding_json empty_cache"
    by (rule reachable.empty) (simp add: empty_cache_def)
  then have "reachable encoding_json first_cache"
    unfolding first_cache_def by (rule reachable.leaderboard)
  then show ?thesis unfolding season_cache_def by (rule reachable.season)
qed

section \<open>The status of each handler\<close>

lemmas status_simps =
  StatusOK_def StatusBadRequest_def StatusNotFound_def StatusInternalServerError_def JSON_def

lemma handlePing_status: "status (fst (handlePing s c w)) = StatusOK"
  by (simp add: handlePing_def JSON_def)

lemma handleRedisPing_status:
  "status (fst (handleRedisPing s c w)) = StatusOK \<or>
   status (fst (handleRedisPing s c w)) = StatusInternalServerError"
  by (simp add: handleRedisPing_def JSON_def split: prod.splits option.splits)

lemma handleGetCurrentSeason_status:
  "status (fst (handleGetCurrentSeason s c w)) = StatusOK \<or>
   status (fst (handleGetCurrentSeason s c w)) = StatusInternalServerError"
  by (simp add: handleGetCurrentSeason_def JSON_def split: prod.splits sum.splits)

lemma handleGetCurrentLeaderboard_status:
  "status (fst (handleGetCurrentLeaderboard s c w)) = StatusOK \<or>
   status (fst (handleGetCurrentLeaderboard s c w)) = StatusInternalServerError"
  by (simp add: handleGetCurrentLeaderboard_def JSON_def split: prod.splits sum.splits)

lemma handleBackupLeaderboard_status:
  "status (fst (handleBackupLeaderboard s c w)) = StatusOK \<or>
   status (fst (handleBackupLeaderboard s c w)) = StatusInternalServerError"
  by (simp add: handleBackupLeaderboard_def JSON_def Let_def split: prod.splits option.splits)

lemma handleGetPlayerStats_status:
  "status (fst (handleGetPlayerStats s c w)) =
     (case fst (service_GetPlayerStats s Background (Param c ''playerID'') w) of
        Inl err \<Rightarrow> if err = ErrCacheMiss then StatusNotFound else StatusInternalServerError
      | Inr r \<Rightarrow> StatusOK)"
  by (simp add: handleGetPlayerStats_def JSON_def Let_def split: prod.splits sum.splits)

lemma handleRestoreLeaderboard_status:
  "status (fst (handleRestoreLeaderboard s c w)) =
     (if Query c ''file'' = [] then StatusBadRequest
      else (case fst (service_RestoreLeaderboardData s (req_ctx c) ''pubg-leaderboard''
                        (Query c ''file'') w) of
              Some err \<Rightarrow> StatusInternalServerError
            | None \<Rightarrow> StatusOK))"
  by (simp add: handleRestoreLeaderboard_def JSON_def Let_def split: prod.splits option.splits)

section \<open>The JSON dialect is lossless\<close>

text \<open>
  The dialect reads back every record it writes, so the hypotheses of losslessness in the
  claims below hold for every snapshot of the concrete model, not only for the examples.
\<close>

lemma lt10: "(d::nat) < 10 \<Longrightarrow> d = 0 \<or> d = 1 \<or> d = 2 \<or> d = 3 \<or> d = 4 \<or> d = 5 \<or> d = 6 \<or> d = 7 \<or> d = 8 \<or> d = 9"
  by arith

lemma digit_val_digit: "d < 10 \<Longrightarrow> digit_val (''0123456789'' ! d) = Some d"
  by (drule lt10) (auto simp: digit_val_def)

lemma digits_show_nat:
  "digits (show_nat n @ r) acc = digits r (acc * 10 ^ length (show_nat n) + n)"
proof (induction n arbitrary: acc r rule: show_nat.induct)
  case (1 n)
  show ?case
  proof (cases "n < 10")
    case True
    then show ?thesis
      by (subst (1 2) show_nat.simps) (simp add: digit_val_digit mult.commute)
  next
    case False
    have m: "n mod 10 < 10" by simp
    from False have s: "show_nat n = show_nat (n div 10) @ [''0123456789'' ! (n mod 10)]"
      by (subst show_nat.simps) simp
    have "digits (show_nat n @ r) acc =
            digits ((''0123456789'' ! (n mod 10)) # r)
              (acc * 10 ^ length (show_nat (n div 10)) + n div 10)"
      using 1[OF False] by (simp add: s)
    also have "\<dots> = digits r (10 * (acc * 10 ^ length (show_nat (n div 10)) + n div 10) + n mod 10)"
      by (simp add: digit_val_digit[OF m])
    also have "10 * (acc * 10 ^ length (show_nat (n div 10)) + n div 10) + n mod 10 =
               acc * 10 ^ length (show_nat n) + n"
      by (simp add: s algebra_simps)
    finally show ?thesis .
  qed
qed

lemma show_nat_head: "\<exists>d cs. d < 10 \<and> show_nat n = (''0123456789'' ! d) # cs"
proof (induction n rule: show_nat.induct)
  case (1 n)
  show ?case
  proof (cases "n < 10")
    case True
    then show ?thesis by (subst show_nat.simps) auto
  next
    case False
    from 1[OF False] obtain d cs where "d < 10" "show_nat (n div 10) = (''0123456789'' ! d) # cs"
      by blast
    with False show ?thesis by (subst show_nat.simps) auto
  qed
qed

lemma digits_no_digit: "no_digit r \<Longrightarrow> digits r acc = (acc, r)"
  by (cases r) (simp_all add: no_digit_def)

lemma read_nat_show_nat: "no_digit r \<Longrightarrow> read_nat (show_nat n @ r) = Some (n, r)"
proof -
  assume r: "no_digit r"
  from show_nat_head[of n] obtain d cs where d: "d < 10" and s: "show_nat n = (''0123456789'' ! d) # cs"
    by blast
  have "read_nat (show_nat n @ r) = Some (digits (cs @ r) d)"
    by (simp add: s read_nat_def digit_val_digit[OF d])
  also have "digits (cs @ r) d = digits (show_nat n @ r) 0"
    by (simp add: s digit_val_digit[OF d])
  also have "\<dots> = digits r n" by (simp add: digits_show_nat)
  also have "\<dots> = (n, r)" using r by (rule digits_no_digit)
  finally show ?thesis .
qed

lemma show_nat_not_minus: "\<exists>c cs. show_nat n = c # cs \<and> c \<noteq> CHR ''-''"
proof -
  from show_nat_head[of n] obtain d cs where d: "d < 10" and s: "show_nat n = (''0123456789'' ! d) # cs"
    by blast
  from lt10[OF d] have "''0123456789'' ! d \<noteq> CHR ''-''" by auto
  with s show ?thesis by blast
qed

lemma read_int_show_int: "no_digit r \<Longrightarrow> read_int (show_int i @ r) = Some (i, r)"
proof (cases "i < 0")
  case True
  assume "no_digit r"
  with True show ?thesis
    by (simp add: read_int_def show_int_def read_nat_show_nat)
next
  case False
  assume r: "no_digit r"
  from show_nat_not_minus[of "nat i"] obtain c cs where
    s: "show_nat (nat i) = c # cs" and c: "c \<noteq> CHR ''-''" by blast
  have "read_int (show_nat (nat i) @ r) = map_option (apfst int) (read_nat (show_nat (nat i) @ r))"
    using c by (simp add: read_int_def s)
  with False r show ?thesis by (simp add: show_int_def read_nat_show_nat)
qed

lemma expect_append [simp]: "expect p (p @ r) = Some r"
  by (induction p) simp_all

lemma read_attributes_show_attributes: "read_attributes (show_attributes a @ r) = Some (a, r)"
proof -
  have nd: "\<And>s. no_digit (CHR '','' # s)" "\<And>s. no_digit (CHR ''}'' # s)"
    by (simp_all add: no_digit_def digit_val_def)
  have e: "\<And>p x s. expect p (p @ x @ s) = Some (x @ s)" by simp
  show ?thesis
    unfolding show_attributes_def read_attributes_def
    apply (simp only: append_assoc e Option.bind.simps)
    apply (simp add: read_int_show_int nd)
    done
qed

lemma read_chars_escape:
  "read_chars (concat (map escape s) @ CHR 0x22 # r) = Some (s, r)"
  by (induction s) (auto simp: escape_def)

lemma read_string_show_string: "read_string (show_string s @ r) = Some (s, r)"
  by (simp add: read_string_def show_string_def read_chars_escape)

lemma read_player_show_player: "read_player (show_player p @ r) = Some (p, r)"
proof -
  have e: "\<And>q x s. expect q (q @ x @ s) = Some (x @ s)" by simp
  show ?thesis
    unfolding show_player_def read_player_def
    apply (simp only: append_assoc e Option.bind.simps)
    apply (simp add: read_string_show_string read_attributes_show_attributes)
    done
qed

lemma read_players_show_players:
  "ps \<noteq> [] \<Longrightarrow> length ps \<le> n \<Longrightarrow> no_comma r \<Longrightarrow>
   read_players n (show_players ps @ r) = Some (ps, r)"
proof (induction ps arbitrary: n rule: show_players.induct)
  case 1
  then show ?case by simp
next
  case (2 p)
  then obtain m where n: "n = Suc m" by (cases n) auto
  from 2(3) show ?case
    using read_player_show_player[of p "[]"]
    by (cases r) (simp_all add: n read_player_show_player no_comma_def)
next
  case (3 p q ps)
  then obtain m where n: "n = Suc m" by (cases n) auto
  from 3 n have "read_players m (show_players (q # ps) @ r) = Some (q # ps, r)" by simp
  then show ?case
    by (simp add: n read_player_show_player)
qed

lemma show_player_head: "\<exists>cs. show_player p = CHR ''{'' # cs"
  by (simp add: show_player_def)

lemma show_players_head: "ps \<noteq> [] \<Longrightarrow> \<exists>cs. show_players ps = CHR ''{'' # cs"
proof (induction ps rule: show_players.induct)
  case 1
  then show ?case by simp
next
  case (2 p)
  then show ?case using show_player_head[of p] by simp
next
  case (3 p q ps)
  from show_player_head[of p] obtain cs where "show_player p = CHR ''{'' # cs" by blast
  then show ?case by simp
qed

lemma length_show_players: "length ps \<le> length (show_players ps)"
proof (induction ps rule: show_players.induct)
  case 1
  then show ?case by simp
next
  case (2 p)
  from show_player_head[of p] show ?case by auto
next
  case (3 p q ps)
  from show_player_head[of p] obtain cs where "show_player p = CHR ''{'' # cs" by blast
  with 3 show ?case by simp
qed

lemma read_leaderboard_show_leaderboard:
  "read_leaderboard (show_leaderboard lb) = Some (lb :: PlayerAttribute LeaderboardResponse)"
proof (cases "Included lb = []")
  case True
  then show ?thesis by (simp add: read_leaderboard_def show_leaderboard_def)
next
  case False
  from show_players_head[OF False] obtain cs where h: "show_players (Included lb) = CHR ''{'' # cs"
    by blast
  have x: "expect '']'' (show_players (Included lb) @ '']}'') = None" by (simp add: h)
  have "length (Included lb) \<le> length (show_players (Included lb) @ '']}'')"
    using length_show_players[of "Included lb"] by simp
  from read_players_show_players[OF False this, of "'']}''"]
  have r: "read_players (length (show_players (Included lb) @ '']}''))
             (show_players (Included lb) @ '']}'') = Some (Included lb, '']}'')"
    by (simp add: no_comma_def)
  have e: "\<And>q s. expect q (q @ s) = Some s" by simp
  show ?thesis
    unfolding read_leaderboard_def show_leaderboard_def
    apply (simp only: e Option.bind.simps x option.case r prod.case)
    apply simp
    done
qed

lemma encoding_json_lossless: "lossless encoding_json x"
  by (simp add: lossless_def encoding_json_def decoded_def read_leaderboard_show_leaderboard)

lemma show_attributes_not_null: "show_attributes a \<noteq> ''null''"
  by (simp add: show_attributes_def)

lemma encoding_json_lossless_attributes: "lossless_attributes encoding_json a"
  using read_attributes_show_attributes[of a "[]"]
  by (simp add: lossless_attributes_def Unmarshal_def show_attributes_not_null
        encoding_json_def decoded_def)

lemma encoding_json_season:
  "UnmarshalSeason encoding_json (projr (MarshalSeason encoding_json s)) = Inr s"
  using read_string_show_string[of s "[]"]
  by (simp add: encoding_json_def decoded_def)

section \<open>The pipeline, slot by slot\<close>

text \<open>
  A command touches the key it names and no other, and what it leaves there depends on
  that key alone. Hence what \<open>Exec\<close> leaves under a key is what the block of the key's
  slot, run alone at the instant of that slot, leaves there, and nothing when that
  block fails.
\<close>

lemma run_frame: "key_of c \<noteq> k \<Longrightarrow> snd (run t c ks) k = ks k"
  by (cases c) (auto split: option.splits rvalue.splits)

lemma run_local: "ks k = ks' k \<Longrightarrow> snd (run t c ks) k = snd (run t c ks') k"
proof (cases "key_of c = k")
  case False
  then show "ks k = ks' k \<Longrightarrow> snd (run t c ks) k = snd (run t c ks') k"
    by (simp add: run_frame)
next
  case True
  assume eq: "ks k = ks' k"
  then have "lookup t ks k = lookup t ks' k" by (simp add: lookup_def)
  with True eq show "snd (run t c ks) k = snd (run t c ks') k"
    by (cases c) (auto split: option.splits rvalue.splits)
qed

lemma snd_run_pipeline_Cons:
  "snd (run_pipeline b (c # cs) ks) = snd (run_pipeline b cs (snd (run_queued b c ks)))"
  by (simp split: prod.splits)

lemma snd_run_all_Cons:
  "snd (run_all t (c # cs) ks) = snd (run_all t cs (snd (run t c ks)))"
  by (simp split: prod.splits)

lemma run_pipeline_block:
  "ks k = ks' k \<Longrightarrow> snd (run_pipeline b pipe ks) k = run_block b (slot b k) pipe ks' k"
proof (induction pipe arbitrary: ks ks')
  case Nil
  then show ?case by (simp add: run_block_def block_def split: option.splits)
next
  case (Cons c cs)
  show ?case
  proof (cases "slot b (key_of c) = slot b k")
    case False
    then have "key_of c \<noteq> k" by auto
    then have "snd (run_queued b c ks) k = ks' k"
      using Cons.prems by (simp add: run_queued_def run_frame split: option.splits)
    from Cons.IH[of "snd (run_queued b c ks)" ks', OF this] False show ?thesis
      by (simp only: snd_run_pipeline_Cons)
         (simp add: run_block_def block_def split: option.splits)
  next
    case True
    show ?thesis
    proof (cases "broken b (slot b k)")
      case (Some e)
      with True have "snd (run_queued b c ks) k = ks' k"
        using Cons.prems by (simp add: run_queued_def)
      from Cons.IH[of "snd (run_queued b c ks)" ks', OF this] Some show ?thesis
        by (simp only: snd_run_pipeline_Cons) (simp add: run_block_def)
    next
      case None
      let ?t = "now b + lag b (slot b k)"
      from True None have "snd (run_queued b c ks) k = snd (run ?t c ks') k"
        using run_local[of ks k ks' ?t c, OF Cons.prems] by (simp add: run_queued_def instant_def)
      from Cons.IH[of "snd (run_queued b c ks)" "snd (run ?t c ks')", OF this] True None
      show ?thesis
        by (simp only: snd_run_pipeline_Cons)
           (simp add: run_block_def block_def snd_run_all_Cons del: run_all.simps)
    qed
  qed
qed

lemma run_pipeline_per_slot:
  "snd (run_pipeline b pipe ks) k = run_block b (slot b k) pipe ks k"
  by (rule run_pipeline_block) simp

lemma Exec_per_slot:
  assumes "down b = None" and "\<not> strict b \<or> one_slot b pipe"
  shows "keys (snd (Exec Live pipe b)) k = run_block b (slot b k) pipe (keys b) k"
  using assms run_pipeline_per_slot[of b pipe "keys b" k]
  by (auto simp: Exec_def split: prod.splits option.splits)

section \<open>Expiry instants\<close>

lemma lookup_live:
  "ks k = Some e \<Longrightarrow> expires e = Some w \<Longrightarrow> t \<le> w \<Longrightarrow> lookup t ks k = Some e"
  by (simp add: lookup_def expired_def)

lemma window:
  fixes t a c :: nat
  shows "(t \<le> a) = (t \<le> c) \<or> (min a c < t \<and> t \<le> max a c)"
  by (auto simp: min_def max_def)

section \<open>Further examples\<close>

text \<open>
  The update on the cluster whose node for \<open>player_stats:p2\<close> is behind succeeds; with
  the serialization that refuses attribute records, the update returns the marshalling
  error and the backend as it was, whatever it held.
\<close>

lemma slow_update_ok:
  "UpdateLeaderboard encoding_json Live (Some snapshot) slow_cluster = (None, slow_cache)"
proof -
  have "fst (UpdateLeaderboard encoding_json Live (Some snapshot) slow_cluster) = None"
    by (simp add: slow_cluster_def store_simps json_simps example_simps)
  then show ?thesis by (simp add: slow_cache_def prod_eq_iff)
qed

lemma UpdateLeaderboard_unsupported:
  "\<not> encodes unsupported_json snapshot \<and>
   UpdateLeaderboard unsupported_json ctx (Some snapshot) b =
     (Some (Errorf ''redisclient - error marshaling player stats: ''
        (Error ''json: unsupported value'')), b)"
proof
  show "\<not> encodes unsupported_json snapshot"
    by (auto simp: encodes_def encoding_json_def unsupported_json_def snapshot_def)
  show "UpdateLeaderboard unsupported_json ctx (Some snapshot) b =
     (Some (Errorf ''redisclient - error marshaling player stats: ''
        (Error ''json: unsupported value'')), b)"
    by (simp add: UpdateLeaderboard_def Marshal_def json_simps example_simps)
qed

section \<open>The claims\<close>

text \<open>
  C1: \<open>UpdateLeaderboard\<close> is to write the key \<open>leaderboard\<close> and the \<open>player_stats:\<close>
  entry of every player of the snapshot in a single transaction, so that no partial
  application can be observed. The code does not: its client is a cluster client, whose
  \<open>TxPipeline\<close> is one \<open>MULTI\<close>/\<open>EXEC\<close> block per hash slot, and the keys \<open>leaderboard\<close>,
  \<open>player_stats:p1\<close> and \<open>player_stats:p2\<close> lie in three slots. When the block of the slot
  of \<open>player_stats:p2\<close> fails, \<open>UpdateLeaderboard\<close> of the two-player snapshot of section 8
  on the empty cache returns the write error, and afterwards the snapshot and the entry
  of \<open>p1\<close> are served while the entry of \<open>p2\<close> is a miss: a half-updated player set. With
  a client that refuses a transactional pipeline over several slots, the same call
  fails with \<open>CROSSSLOT\<close> and writes nothing. The other half of the claim does hold, by
  lemma \<open>UpdateLeaderboard_not_encodes\<close>: when a record does not encode, the marshalling
  error is returned and the backend is as it was.
\<close>

theorem UpdateLeaderboard_partial_write:
  "slot torn_cluster ''leaderboard'' \<noteq> slot torn_cluster ''player_stats:p2'' \<and>
   fst (UpdateLeaderboard encoding_json Live (Some snapshot) torn_cluster) =
     Some (Errorf ''redisclient - error updating leaderboard in Redis: ''
             (Error ''connection refused'')) \<and>
   fst (GetLeaderboard encoding_json Live torn_cache) = Inr snapshot \<and>
   fst (GetPlayerStats encoding_json Live ''p1'' torn_cache) =
     Inr \<lparr>rank = 3, gamesPlayed = 50, wins = 5\<rparr> \<and>
   fst (GetPlayerStats encoding_json Live ''p2'' torn_cache) = Inl ErrCacheMiss \<and>
   UpdateLeaderboard encoding_json Live (Some snapshot) (empty_cache\<lparr>strict := True\<rparr>) =
     (Some (Errorf ''redisclient - error updating leaderboard in Redis: '' CROSSSLOT),
      empty_cache\<lparr>strict := True\<rparr>)"
proof (intro conjI)
  show "slot torn_cluster ''leaderboard'' \<noteq> slot torn_cluster ''player_stats:p2''"
    by (simp add: torn_cluster_def empty_cache_def cluster_slot_def)
  show "fst (UpdateLeaderboard encoding_json Live (Some snapshot) torn_cluster) =
     Some (Errorf ''redisclient - error updating leaderboard in Redis: ''
             (Error ''connection refused''))"
    by (simp add: torn_cluster_def store_simps json_simps example_simps)
  show "fst (GetLeaderboard encoding_json Live torn_cache) = Inr snapshot"
    by (simp add: torn_cache_def torn_cluster_def store_simps json_simps example_simps)
  show "fst (GetPlayerStats encoding_json Live ''p1'' torn_cache) =
     Inr \<lparr>rank = 3, gamesPlayed = 50, wins = 5\<rparr>"
    by (simp add: torn_cache_def torn_cluster_def store_simps json_simps example_simps)
  show "fst (GetPlayerStats encoding_json Live ''p2'' torn_cache) = Inl ErrCacheMiss"
    by (simp add: torn_cache_def torn_cluster_def store_simps json_simps example_simps)
  show "UpdateLeaderboard encoding_json Live (Some snapshot) (empty_cache\<lparr>strict := True\<rparr>) =
     (Some (Errorf ''redisclient - error updating leaderboard in Redis: '' CROSSSLOT),
      empty_cache\<lparr>strict := True\<rparr>)"
    by (simp add: CROSSSLOT_def store_simps json_simps example_simps)
qed

text \<open>
  C2: for every valid snapshot \<open>x\<close> and every name \<open>n\<close>, \<open>Restore\<close> applied to the
  artifact \<open>Backup\<close> produced for \<open>x\<close> under \<open>n\<close> returns a snapshot equal to \<open>x\<close>. A
  snapshot is valid when the serialization is lossless on it, and the blob storage is
  taken to answer.
\<close>

theorem Restore_Backup:
  assumes "lossless js x" and "unavailable st = None"
  shows "\<exists>blob. MarshalLeaderboard js x = Inr blob \<and>
           Backup js x destination n st =
             (None, st\<lparr>objects := (objects st)((destination, n) \<mapsto> blob)\<rparr>) \<and>
           fst (Restore js destination n (snd (Backup js x destination n st))) = Inr x"
proof -
  from assms(1) obtain blob where
    m: "MarshalLeaderboard js x = Inr blob" and u: "UnmarshalLeaderboard js blob = Inr x"
    by (cases "MarshalLeaderboard js x") (auto simp: lossless_def)
  from m assms(2) have b: "Backup js x destination n st =
             (None, st\<lparr>objects := (objects st)((destination, n) \<mapsto> blob)\<rparr>)"
    by (simp add: Backup_def)
  from b u assms(2) have "fst (Restore js destination n (snd (Backup js x destination n st))) = Inr x"
    by (simp add: Restore_def)
  with m b show ?thesis by blast
qed

text \<open>
  The round trip of the two-player snapshot through the JSON dialect and an empty
  storage.
\<close>

theorem Restore_Backup_witness:
  "lossless encoding_json snapshot \<and> unavailable (rest empty_world) = None \<and>
   fst (Restore encoding_json ''pubg-leaderboard'' ''backup.json''
          (snd (Backup encoding_json snapshot ''pubg-leaderboard'' ''backup.json'' (rest empty_world)))) =
     Inr snapshot"
proof -
  have a: "lossless encoding_json snapshot"
    by (simp add: lossless_def json_simps example_simps)
  have b: "unavailable (rest empty_world) = None" by (simp add: empty_world_def)
  from Restore_Backup[OF a b, of "''pubg-leaderboard''" "''backup.json''"]
  have "fst (Restore encoding_json ''pubg-leaderboard'' ''backup.json''
          (snd (Backup encoding_json snapshot ''pubg-leaderboard'' ''backup.json'' (rest empty_world)))) =
     Inr snapshot" by (elim exE conjE)
  with a b show ?thesis by simp
qed

text \<open>
  C3, as the specification states it: in every reachable cache state a key
  \<open>player_stats:<playerID>\<close> exists if and only if the player appears in the currently
  cached snapshot. The code does not keep this: after the two-player snapshot and, five
  minutes later, a snapshot without player \<open>p1\<close>, the cached snapshot is the later one
  and the entry of \<open>p1\<close> is still there and still served.
\<close>

theorem presence_coherence_counterexample:
  "reachable encoding_json second_cache \<and>
   fst (GetLeaderboard encoding_json Live second_cache) = Inr later_snapshot \<and>
   ''p1'' \<notin> ID ` set (Included later_snapshot) \<and>
   lookup (now second_cache) (keys second_cache) ''player_stats:p1'' \<noteq> None \<and>
   fst (GetPlayerStats encoding_json Live ''p1'' second_cache) =
     Inr \<lparr>rank = 3, gamesPlayed = 50, wins = 5\<rparr>"
proof (intro conjI)
  have "reachable encoding_json empty_cache"
    by (rule reachable.empty) (simp add: empty_cache_def)
  then have "reachable encoding_json first_cache"
    unfolding first_cache_def by (rule reachable.leaderboard)
  then have "reachable encoding_json (first_cache\<lparr>now := 5 * Minute\<rparr>)"
    by (rule reachable.tick) (simp add: first_cache_def store_simps json_simps example_simps)
  then show "reachable encoding_json second_cache"
    unfolding second_cache_def by (rule reachable.leaderboard)
  show "fst (GetLeaderboard encoding_json Live second_cache) = Inr later_snapshot"
    by (simp add: second_cache_def first_cache_def store_simps json_simps example_simps)
  show "''p1'' \<notin> ID ` set (Included later_snapshot)"
    by (simp add: example_simps)
  show "lookup (now second_cache) (keys second_cache) ''player_stats:p1'' \<noteq> None"
    by (simp add: second_cache_def first_cache_def store_simps json_simps example_simps)
  show "fst (GetPlayerStats encoding_json Live ''p1'' second_cache) =
     Inr \<lparr>rank = 3, gamesPlayed = 50, wins = 5\<rparr>"
    by (simp add: second_cache_def first_cache_def store_simps json_simps example_simps)
qed

text \<open>
  C3, amended: after a successful \<open>UpdateLeaderboard\<close> of a snapshot, the entry of every
  player of the snapshot exists until ten minutes after the instant at which the block
  of its slot ran, and the key \<open>leaderboard\<close> until ten minutes after the instant of its
  own block. So the one is present exactly when the other is, within the tolerance of
  the store's clocks: at every time outside the interval between the two expiry
  instants, and in particular right after the call. The entries of players who are not
  in the snapshot are left as they were, those of earlier snapshots included, which
  stay until their own expiry.
\<close>

theorem presence_after_UpdateLeaderboard:
  assumes "UpdateLeaderboard js ctx (Some s) b = (None, b')"
  shows "(\<forall>p\<in>set (Included s). \<forall>t.
            (lookup t (keys b') (''player_stats:'' @ ID p) \<noteq> None) =
              (t \<le> instant b (''player_stats:'' @ ID p) + 10 * Minute) \<and>
            (lookup t (keys b') ''leaderboard'' \<noteq> None) =
              (t \<le> instant b ''leaderboard'' + 10 * Minute) \<and>
            ((lookup t (keys b') (''player_stats:'' @ ID p) \<noteq> None) =
               (lookup t (keys b') ''leaderboard'' \<noteq> None) \<or>
             min (instant b (''player_stats:'' @ ID p) + 10 * Minute)
                 (instant b ''leaderboard'' + 10 * Minute) < t \<and>
             t \<le> max (instant b (''player_stats:'' @ ID p) + 10 * Minute)
                     (instant b ''leaderboard'' + 10 * Minute))) \<and>
         (\<forall>p\<in>set (Included s).
            lookup (now b') (keys b') (''player_stats:'' @ ID p) \<noteq> None \<and>
            lookup (now b') (keys b') ''leaderboard'' \<noteq> None) \<and>
         (\<forall>playerID. playerID \<notin> ID ` set (Included s) \<longrightarrow>
            keys b' (''player_stats:'' @ playerID) = keys b (''player_stats:'' @ playerID))"
proof -
  note E = UpdateLeaderboard_effect[OF assms]
  let ?wl = "instant b ''leaderboard'' + 10 * Minute"
  have lb: "\<And>t. (lookup t (keys b') ''leaderboard'' \<noteq> None) = (t \<le> ?wl)"
    using E(6) by (simp add: lookup_def expired_def)
  have pl: "\<And>p t. p \<in> set (Included s) \<Longrightarrow>
              (lookup t (keys b') (''player_stats:'' @ ID p) \<noteq> None) =
              (t \<le> instant b (''player_stats:'' @ ID p) + 10 * Minute)"
  proof -
    fix p t assume "p \<in> set (Included s)"
    then have "ID p \<in> ID ` set (Included s)" by simp
    with E(7) have "stats_entry (instant b (''player_stats:'' @ ID p) + 10 * Minute)
                      (keys b' (''player_stats:'' @ ID p)) (last_stats js (Included s) (ID p))"
      by blast
    from stats_entryD[OF this] obtain e where
      "keys b' (''player_stats:'' @ ID p) = Some e"
      "expires e = Some (instant b (''player_stats:'' @ ID p) + 10 * Minute)" by blast
    then show "(lookup t (keys b') (''player_stats:'' @ ID p) \<noteq> None) =
               (t \<le> instant b (''player_stats:'' @ ID p) + 10 * Minute)"
      by (rule lookup_expiry)
  qed
  have t0: "\<And>k. now b' \<le> instant b k + 10 * Minute"
    using E(1) by (simp add: instant_def)
  show ?thesis
  proof (intro conjI ballI allI impI)
    fix p t assume "p \<in> set (Included s)"
    then show "(lookup t (keys b') (''player_stats:'' @ ID p) \<noteq> None) =
              (t \<le> instant b (''player_stats:'' @ ID p) + 10 * Minute)"
      by (rule pl)
  next
    fix p t
    show "(lookup t (keys b') ''leaderboard'' \<noteq> None) = (t \<le> ?wl)" by (rule lb)
  next
    fix p t assume p: "p \<in> set (Included s)"
    show "(lookup t (keys b') (''player_stats:'' @ ID p) \<noteq> None) =
               (lookup t (keys b') ''leaderboard'' \<noteq> None) \<or>
             min (instant b (''player_stats:'' @ ID p) + 10 * Minute) ?wl < t \<and>
             t \<le> max (instant b (''player_stats:'' @ ID p) + 10 * Minute) ?wl"
      unfolding pl[OF p] lb by (rule window)
  next
    fix p assume p: "p \<in> set (Included s)"
    show "lookup (now b') (keys b') (''player_stats:'' @ ID p) \<noteq> None"
      unfolding pl[OF p] by (rule t0)
  next
    fix p
    show "lookup (now b') (keys b') ''leaderboard'' \<noteq> None"
      unfolding lb by (rule t0)
  next
    fix playerID assume "playerID \<notin> ID ` set (Included s)"
    then have "\<forall>p\<in>set (Included s). ''player_stats:'' @ playerID \<noteq> ''player_stats:'' @ ID p"
      by auto
    with E(8) show "keys b' (''player_stats:'' @ playerID) = keys b (''player_stats:'' @ playerID)"
      by simp
  qed
qed

text \<open>
  On the cluster whose node for \<open>player_stats:p2\<close> is two seconds behind: the entry of
  \<open>p2\<close> and the snapshot are both present after five minutes and both absent after
  eleven; one second after the snapshot's expiry the entry of \<open>p2\<close> is still there; and
  the key of \<open>p3\<close> is untouched.
\<close>

theorem presence_after_UpdateLeaderboard_witness:
  "UpdateLeaderboard encoding_json Live (Some snapshot) slow_cluster = (None, slow_cache) \<and>
   lookup (5 * Minute) (keys slow_cache) ''player_stats:p2'' \<noteq> None \<and>
   lookup (5 * Minute) (keys slow_cache) ''leaderboard'' \<noteq> None \<and>
   lookup (10 * Minute + Second) (keys slow_cache) ''player_stats:p2'' \<noteq> None \<and>
   lookup (10 * Minute + Second) (keys slow_cache) ''leaderboard'' = None \<and>
   lookup (11 * Minute) (keys slow_cache) ''player_stats:p2'' = None \<and>
   lookup (11 * Minute) (keys slow_cache) ''leaderboard'' = None \<and>
   keys slow_cache ''player_stats:p3'' = keys slow_cluster ''player_stats:p3''"
proof -
  note T = presence_after_UpdateLeaderboard[OF slow_update_ok]
  have in2: "p2 \<in> set (Included snapshot)" by (simp add: snapshot_def)
  have id2: "''player_stats:'' @ ID p2 = ''player_stats:p2''" by (simp add: p2_def)
  have i2: "instant slow_cluster ''player_stats:p2'' + 10 * Minute = 10 * Minute + 2 * Second"
    by (simp add: instant_def slow_cluster_def empty_cache_def cluster_slot_def)
  have il: "instant slow_cluster ''leaderboard'' + 10 * Minute = 10 * Minute"
    by (simp add: instant_def slow_cluster_def empty_cache_def cluster_slot_def)
  from T[THEN conjunct1, THEN bspec, OF in2]
  have P: "\<And>t. (lookup t (keys slow_cache) ''player_stats:p2'' \<noteq> None) =
                (t \<le> 10 * Minute + 2 * Second)"
    and L: "\<And>t. (lookup t (keys slow_cache) ''leaderboard'' \<noteq> None) = (t \<le> 10 * Minute)"
    unfolding id2 i2 il by blast+
  have a: "lookup (5 * Minute) (keys slow_cache) ''player_stats:p2'' \<noteq> None"
    unfolding P by (simp add: Minute_def Second_def)
  have b: "lookup (5 * Minute) (keys slow_cache) ''leaderboard'' \<noteq> None"
    unfolding L by (simp add: Minute_def Second_def)
  have c: "lookup (10 * Minute + Second) (keys slow_cache) ''player_stats:p2'' \<noteq> None"
    unfolding P by (simp add: Minute_def Second_def)
  have d: "lookup (10 * Minute + Second) (keys slow_cache) ''leaderboard'' = None"
    using L[of "10 * Minute + Second"] by (simp add: Minute_def Second_def)
  have e: "lookup (11 * Minute) (keys slow_cache) ''player_stats:p2'' = None"
    using P[of "11 * Minute"] by (simp add: Minute_def Second_def)
  have f: "lookup (11 * Minute) (keys slow_cache) ''leaderboard'' = None"
    using L[of "11 * Minute"] by (simp add: Minute_def Second_def)
  have "''p3'' \<notin> ID ` set (Included snapshot)" by (simp add: example_simps)
  with T have "keys slow_cache (''player_stats:'' @ ''p3'') =
               keys slow_cluster (''player_stats:'' @ ''p3'')" by blast
  then have g: "keys slow_cache ''player_stats:p3'' = keys slow_cluster ''player_stats:p3''"
    by simp
  show ?thesis
    by (rule conjI[OF slow_update_ok conjI[OF a conjI[OF b conjI[OF c conjI[OF d conjI[OF e
          conjI[OF f g]]]]]]])
qed

text \<open>
  C4: after a successful \<open>UpdateLeaderboard\<close> of a snapshot on a previously empty cache,
  \<open>GetPlayerStats\<close> returns exactly the attributes embedded in the snapshot for every
  player included in it, and \<open>ErrCacheMiss\<close> for every identifier that is not included.
  The snapshot is a valid one: its identifiers are unique (section 3) and the
  serialization is lossless on its attribute records (section 4.1).
\<close>

theorem GetPlayerStats_after_UpdateLeaderboard:
  assumes "keys b = Map.empty"
    and "UpdateLeaderboard js ctx (Some s) b = (None, b')"
    and "distinct (map ID (Included s))"
    and "\<forall>p\<in>set (Included s). lossless_attributes js (Attributes p)"
  shows "(\<forall>p\<in>set (Included s). fst (GetPlayerStats js Live (ID p) b') = Inr (Attributes p)) \<and>
         (\<forall>playerID. playerID \<notin> ID ` set (Included s) \<longrightarrow>
            fst (GetPlayerStats js Live playerID b') = Inl ErrCacheMiss)"
proof (intro conjI ballI allI impI)
  note E = UpdateLeaderboard_effect[OF assms(2)]
  from E have up: "down b' = None" and t: "now b' = now b" by simp_all
  {
    fix p assume p: "p \<in> set (Included s)"
    let ?v = "projr (MarshalAttributes js (Attributes p))"
    from p have "ID p \<in> ID ` set (Included s)" by simp
    with E(7) have "stats_entry (instant b (''player_stats:'' @ ID p) + 10 * Minute)
                      (keys b' (''player_stats:'' @ ID p)) (last_stats js (Included s) (ID p))"
      by blast
    from stats_entryD[OF this] obtain e h where
      e: "keys b' (''player_stats:'' @ ID p) = Some e" "content e = RHash h"
         "expires e = Some (instant b (''player_stats:'' @ ID p) + 10 * Minute)"
         "h ''stats'' = last_stats js (Included s) (ID p)" by blast
    from last_stats_distinct[OF assms(3) p] e(4) have h: "h ''stats'' = Some ?v" by simp
    have "now b' \<le> instant b (''player_stats:'' @ ID p) + 10 * Minute"
      using t by (simp add: instant_def)
    from lookup_live[of "keys b'" _ e _ "now b'", OF e(1) e(3) this]
    have l: "lookup (now b') (keys b') (''player_stats:'' @ ID p) = Some e" .
    from assms(4) p have "lossless_attributes js (Attributes p)" by blast
    then have "Unmarshal (UnmarshalAttributes js) (ZeroAttributes js) ?v = Inr (Attributes p)"
      by (cases "MarshalAttributes js (Attributes p)") (auto simp: lossless_attributes_def)
    with l e(2) h show "fst (GetPlayerStats js Live (ID p) b') = Inr (Attributes p)"
      by (simp add: GetPlayerStats_result[OF up])
  }
  {
    fix playerID assume n: "playerID \<notin> ID ` set (Included s)"
    then have "\<forall>p\<in>set (Included s). ''player_stats:'' @ playerID \<noteq> ''player_stats:'' @ ID p"
      by auto
    with E(8) have "keys b' (''player_stats:'' @ playerID) = keys b (''player_stats:'' @ playerID)"
      by simp
    with assms(1) have "lookup (now b') (keys b') (''player_stats:'' @ playerID) = None"
      by (simp add: lookup_def)
    then show "fst (GetPlayerStats js Live playerID b') = Inl ErrCacheMiss"
      by (simp add: GetPlayerStats_result[OF up])
  }
qed

text \<open>
  The scenario of section 8: \<open>p2\<close> has rank 1, 80 games and 20 wins, and \<open>p3\<close> is a
  cache miss.
\<close>

theorem GetPlayerStats_after_UpdateLeaderboard_witness:
  "keys empty_cache = Map.empty \<and>
   UpdateLeaderboard encoding_json Live (Some snapshot) empty_cache = (None, first_cache) \<and>
   distinct (map ID (Included snapshot)) \<and>
   fst (GetPlayerStats encoding_json Live ''p2'' first_cache) =
     Inr \<lparr>rank = 1, gamesPlayed = 80, wins = 20\<rparr> \<and>
   fst (GetPlayerStats encoding_json Live ''p3'' first_cache) = Inl ErrCacheMiss"
proof -
  have h1: "keys empty_cache = Map.empty" by (simp add: empty_cache_def)
  have h3: "distinct (map ID (Included snapshot))" by (simp add: example_simps)
  have h4: "\<forall>p\<in>set (Included snapshot). lossless_attributes encoding_json (Attributes p)"
    using lossless_attributes_examples by (simp add: snapshot_def)
  note T = GetPlayerStats_after_UpdateLeaderboard[OF h1 first_update_ok h3 h4]
  have "p2 \<in> set (Included snapshot)" by (simp add: snapshot_def)
  with T have "fst (GetPlayerStats encoding_json Live (ID p2) first_cache) = Inr (Attributes p2)"
    by blast
  then have a: "fst (GetPlayerStats encoding_json Live ''p2'' first_cache) =
     Inr \<lparr>rank = 1, gamesPlayed = 80, wins = 20\<rparr>" by (simp add: p2_def)
  have "''p3'' \<notin> ID ` set (Included snapshot)" by (simp add: example_simps)
  with T have b: "fst (GetPlayerStats encoding_json Live ''p3'' first_cache) = Inl ErrCacheMiss"
    by blast
  from h1 first_update_ok h3 a b show ?thesis by blast
qed

text \<open>
  C5: the fixed key naming and expiry scheme. A successful \<open>UpdateLeaderboard\<close> leaves
  the encoded snapshot under the key \<open>leaderboard\<close>, expiring 10 minutes after the
  instant at which the key was written; under \<open>player_stats:<playerID>\<close>, for each
  player, a hash whose field \<open>stats\<close> is the encoded attributes of a player with that
  identifier, expiring 10 minutes after the instant at which this key was written; and
  every other key as it was. A successful \<open>UpdateSeason\<close> stores the encoded season under
  \<open>current_season\<close>, expiring after 24 hours, and nothing else.
\<close>

theorem key_naming_and_expiry:
  "(\<forall>b'. UpdateLeaderboard js ctx (Some lb) b = (None, b') \<longrightarrow>
      (\<exists>j. MarshalLeaderboard js lb = Inr j \<and>
           keys b' ''leaderboard'' =
             Some \<lparr>content = RString j, expires = Some (instant b ''leaderboard'' + 10 * Minute)\<rparr>) \<and>
      (\<forall>p\<in>set (Included lb).
         \<exists>e h v. keys b' (''player_stats:'' @ ID p) = Some e \<and> content e = RHash h \<and>
           expires e = Some (instant b (''player_stats:'' @ ID p) + 10 * Minute) \<and>
           h ''stats'' = Some v \<and>
           (\<exists>q\<in>set (Included lb). ID q = ID p \<and> MarshalAttributes js (Attributes q) = Inr v)) \<and>
      (\<forall>k. k \<noteq> ''leaderboard'' \<longrightarrow> (\<forall>p\<in>set (Included lb). k \<noteq> ''player_stats:'' @ ID p) \<longrightarrow>
           keys b' k = keys b k)) \<and>
   (\<forall>b'. UpdateSeason js ctx (Some sn) b = (None, b') \<longrightarrow>
      (\<exists>d. MarshalSeason js sn = Inr d \<and>
           keys b' =
             (keys b)(''current_season'' \<mapsto>
                \<lparr>content = RString d, expires = Some (now b + 24 * Hour)\<rparr>)))"
proof (intro conjI allI impI)
  fix b' assume ok: "UpdateLeaderboard js ctx (Some lb) b = (None, b')"
  note E = UpdateLeaderboard_effect[OF ok]
  from E(5) have "\<not> isl (MarshalLeaderboard js lb)" by (simp add: encodes_def)
  then have "MarshalLeaderboard js lb = Inr (projr (MarshalLeaderboard js lb))"
    by (rule not_isl_projr)
  with E(6) show "\<exists>j. MarshalLeaderboard js lb = Inr j \<and>
           keys b' ''leaderboard'' =
             Some \<lparr>content = RString j, expires = Some (instant b ''leaderboard'' + 10 * Minute)\<rparr>"
    by blast
  show "\<forall>p\<in>set (Included lb).
         \<exists>e h v. keys b' (''player_stats:'' @ ID p) = Some e \<and> content e = RHash h \<and>
           expires e = Some (instant b (''player_stats:'' @ ID p) + 10 * Minute) \<and>
           h ''stats'' = Some v \<and>
           (\<exists>q\<in>set (Included lb). ID q = ID p \<and> MarshalAttributes js (Attributes q) = Inr v)"
  proof
    fix p assume p: "p \<in> set (Included lb)"
    then have in': "ID p \<in> ID ` set (Included lb)" by simp
    with E(7) have "stats_entry (instant b (''player_stats:'' @ ID p) + 10 * Minute)
                      (keys b' (''player_stats:'' @ ID p)) (last_stats js (Included lb) (ID p))"
      by blast
    from stats_entryD[OF this] obtain e h where
      e: "keys b' (''player_stats:'' @ ID p) = Some e" "content e = RHash h"
         "expires e = Some (instant b (''player_stats:'' @ ID p) + 10 * Minute)"
         "h ''stats'' = last_stats js (Included lb) (ID p)" by blast
    from in' obtain v where v: "last_stats js (Included lb) (ID p) = Some v"
      using last_stats_None[of js "Included lb" "ID p"] by (cases "last_stats js (Included lb) (ID p)") auto
    from last_stats_Some[OF v] obtain q where
      q: "q \<in> set (Included lb)" "ID q = ID p" "v = projr (MarshalAttributes js (Attributes q))"
      by blast
    from E(5) q(1) have "\<not> isl (MarshalAttributes js (Attributes q))" by (simp add: encodes_def)
    from not_isl_projr[OF this] q(3) have m: "MarshalAttributes js (Attributes q) = Inr v"
      by simp
    from e(4) v have hv: "h ''stats'' = Some v" by simp
    from q(1,2) m
    have "\<exists>q\<in>set (Included lb). ID q = ID p \<and> MarshalAttributes js (Attributes q) = Inr v"
      by blast
    with e(1,2,3) hv show "\<exists>e h v. keys b' (''player_stats:'' @ ID p) = Some e \<and> content e = RHash h \<and>
           expires e = Some (instant b (''player_stats:'' @ ID p) + 10 * Minute) \<and>
           h ''stats'' = Some v \<and>
           (\<exists>q\<in>set (Included lb). ID q = ID p \<and> MarshalAttributes js (Attributes q) = Inr v)"
      by blast
  qed
  fix k assume "k \<noteq> ''leaderboard''" and "\<forall>p\<in>set (Included lb). k \<noteq> ''player_stats:'' @ ID p"
  with E(8) show "keys b' k = keys b k" by simp
next
  fix b' assume ok: "UpdateSeason js ctx (Some sn) b = (None, b')"
  then show "\<exists>d. MarshalSeason js sn = Inr d \<and>
           keys b' =
             (keys b)(''current_season'' \<mapsto>
                \<lparr>content = RString d, expires = Some (now b + 24 * Hour)\<rparr>)"
    by (auto simp: UpdateSeason_def Marshal_def Process_def Hour_def Minute_def Second_def
             split: sum.splits Context.splits option.splits prod.splits)
qed

text \<open>
  The keys of the example: the snapshot and \<open>p1\<close> after the first update, the season
  after \<open>UpdateSeason\<close>.
\<close>

theorem key_naming_and_expiry_witness:
  "UpdateLeaderboard encoding_json Live (Some snapshot) empty_cache = (None, first_cache) \<and>
   (\<exists>j. MarshalLeaderboard encoding_json snapshot = Inr j \<and>
        keys first_cache ''leaderboard'' =
          Some \<lparr>content = RString j,
                 expires = Some (instant empty_cache ''leaderboard'' + 10 * Minute)\<rparr>) \<and>
   (\<exists>e h v. keys first_cache ''player_stats:p1'' = Some e \<and> content e = RHash h \<and>
        expires e = Some (instant empty_cache ''player_stats:p1'' + 10 * Minute) \<and>
        h ''stats'' = Some v) \<and>
   keys first_cache ''current_season'' = keys empty_cache ''current_season'' \<and>
   UpdateSeason encoding_json Live (Some ''2024-01'') first_cache = (None, season_cache) \<and>
   (\<exists>d. MarshalSeason encoding_json ''2024-01'' = Inr d \<and>
        keys season_cache =
          (keys first_cache)(''current_season'' \<mapsto>
             \<lparr>content = RString d, expires = Some (now first_cache + 24 * Hour)\<rparr>))"
proof -
  note T1 = key_naming_and_expiry[of encoding_json Live snapshot empty_cache "''2024-01''"]
  note T2 = key_naming_and_expiry[of encoding_json Live snapshot first_cache "''2024-01''"]
  note U = T1[THEN conjunct1, THEN spec, THEN mp, OF first_update_ok]
  note a = U[THEN conjunct1]
  note b = U[THEN conjunct2, THEN conjunct1]
  note c = U[THEN conjunct2, THEN conjunct2]
  have "p1 \<in> set (Included snapshot)" by (simp add: snapshot_def)
  from b[THEN bspec, OF this]
  have "\<exists>e h v. keys first_cache (''player_stats:'' @ ID p1) = Some e \<and> content e = RHash h \<and>
           expires e = Some (instant empty_cache (''player_stats:'' @ ID p1) + 10 * Minute) \<and> h ''stats'' = Some v"
    by auto
  then have b': "\<exists>e h v. keys first_cache ''player_stats:p1'' = Some e \<and> content e = RHash h \<and>
        expires e = Some (instant empty_cache ''player_stats:p1'' + 10 * Minute) \<and>
        h ''stats'' = Some v"
    by (simp add: p1_def)
  have "\<forall>p\<in>set (Included snapshot). ''current_season'' \<noteq> ''player_stats:'' @ ID p" by simp
  with c[THEN spec, of "''current_season''"]
  have c': "keys first_cache ''current_season'' = keys empty_cache ''current_season''"
    by simp
  note d = T2[THEN conjunct2, THEN spec, THEN mp, OF season_update_ok]
  show ?thesis
    by (rule conjI[OF first_update_ok conjI[OF a conjI[OF b' conjI[OF c' conjI[OF season_update_ok d]]]]])
qed

text \<open>
  C6, as the specification states it: a read fails with a decode error, and never
  parses silently, when the stored bytes are not a record of the expected shape. The
  code does not keep this: \<open>UpdateSeason\<close> of a nil season succeeds and stores the text
  \<open>null\<close>, which is no season record (the dialect's reader refuses it), and \<open>GetSeason\<close>
  then returns the empty season and no error, because \<open>json.Unmarshal\<close> leaves the
  freshly allocated record as it is on \<open>null\<close>.
\<close>

theorem decode_strictness_counterexample:
  "UpdateSeason encoding_json Live None empty_cache = (None, null_cache) \<and>
   reachable encoding_json null_cache \<and>
   lookup (now null_cache) (keys null_cache) ''current_season'' =
     Some \<lparr>content = RString ''null'', expires = Some (24 * Hour)\<rparr> \<and>
   UnmarshalSeason encoding_json ''null'' = Inl (Error ''invalid character'') \<and>
   fst (GetSeason encoding_json Live null_cache) = Inr []"
proof (intro conjI)
  have "fst (UpdateSeason encoding_json Live None empty_cache) = None"
    by (simp add: store_simps json_simps example_simps)
  then show "UpdateSeason encoding_json Live None empty_cache = (None, null_cache)"
    by (simp add: null_cache_def prod_eq_iff)
  have "reachable encoding_json empty_cache"
    by (rule reachable.empty) (simp add: empty_cache_def)
  then show "reachable encoding_json null_cache"
    unfolding null_cache_def by (rule reachable.season)
  show "lookup (now null_cache) (keys null_cache) ''current_season'' =
     Some \<lparr>content = RString ''null'', expires = Some (24 * Hour)\<rparr>"
    by (simp add: null_cache_def store_simps json_simps example_simps)
  show "UnmarshalSeason encoding_json ''null'' = Inl (Error ''invalid character'')"
    by (simp add: json_simps)
  show "fst (GetSeason encoding_json Live null_cache) = Inr []"
    by (simp add: null_cache_def store_simps json_simps example_simps)
qed

text \<open>
  C6, amended: with a live context and a backend that answers, in every cache state
  whose keys \<open>leaderboard\<close> and \<open>current_season\<close> hold strings and whose \<open>player_stats:\<close>
  keys hold hashes with the field \<open>stats\<close>, whatever the bytes, each read operation
  fails with \<open>ErrCacheMiss\<close> exactly when its key is absent or expired, and on a present
  key returns what \<open>json.Unmarshal\<close> makes of the stored bytes: the decoded record, or
  its error wrapped in the operation's message. The decoding is not strict: the text
  \<open>null\<close> is read as the zero record without an error.
\<close>

theorem read_results:
  assumes "well_formed (keys b)" and "down b = None"
  shows "(\<forall>e. lookup (now b) (keys b) ''leaderboard'' = Some e \<longrightarrow>
            (\<exists>data. content e = RString data \<and>
               fst (GetLeaderboard js Live b) =
                 (case Unmarshal (UnmarshalLeaderboard js) (ZeroLeaderboard js) data of
                    Inl err \<Rightarrow>
                      Inl (Errorf ''redisclient - error unmarshalling leaderboard data: '' err)
                  | Inr v \<Rightarrow> Inr v))) \<and>
         ((fst (GetLeaderboard js Live b) = Inl ErrCacheMiss) =
            (lookup (now b) (keys b) ''leaderboard'' = None)) \<and>
         (\<forall>e. lookup (now b) (keys b) ''current_season'' = Some e \<longrightarrow>
            (\<exists>data. content e = RString data \<and>
               fst (GetSeason js Live b) =
                 (case Unmarshal (UnmarshalSeason js) (ZeroSeason js) data of
                    Inl err \<Rightarrow> Inl (Errorf ''redisclient - error unmarshalling season data: '' err)
                  | Inr v \<Rightarrow> Inr v))) \<and>
         ((fst (GetSeason js Live b) = Inl ErrCacheMiss) =
            (lookup (now b) (keys b) ''current_season'' = None)) \<and>
         (\<forall>playerID.
            (\<forall>e. lookup (now b) (keys b) (''player_stats:'' @ playerID) = Some e \<longrightarrow>
               (\<exists>h data. content e = RHash h \<and> h ''stats'' = Some data \<and>
                  fst (GetPlayerStats js Live playerID b) =
                    (case Unmarshal (UnmarshalAttributes js) (ZeroAttributes js) data of
                       Inl err \<Rightarrow>
                         Inl (Errorf ''redisclient - error unmarshalling player stats: '' err)
                     | Inr v \<Rightarrow> Inr v))) \<and>
            ((fst (GetPlayerStats js Live playerID b) = Inl ErrCacheMiss) =
               (lookup (now b) (keys b) (''player_stats:'' @ playerID) = None))) \<and>
         (\<forall>e. lookup (now b) (keys b) ''current_season'' = Some e \<and> content e = RString ''null'' \<longrightarrow>
            fst (GetSeason js Live b) = Inr (ZeroSeason js))"
proof -
  note wf = assms(1)
  have str: "\<And>k e. k = ''leaderboard'' \<or> k = ''current_season'' \<Longrightarrow>
                lookup (now b) (keys b) k = Some e \<Longrightarrow> \<exists>data. content e = RString data"
  proof -
    fix k e assume k: "k = ''leaderboard'' \<or> k = ''current_season''"
      and l: "lookup (now b) (keys b) k = Some e"
    from l have "keys b k = Some e" by (rule lookup_Some)
    with wf k have "is_string e" by (auto simp: well_formed_def)
    then show "\<exists>data. content e = RString data"
      by (cases "content e") (simp_all add: is_string_def)
  qed
  have hash: "\<And>pid e. lookup (now b) (keys b) (''player_stats:'' @ pid) = Some e \<Longrightarrow>
                \<exists>h data. content e = RHash h \<and> h ''stats'' = Some data"
  proof -
    fix pid e assume "lookup (now b) (keys b) (''player_stats:'' @ pid) = Some e"
    then have "keys b (''player_stats:'' @ pid) = Some e" by (rule lookup_Some)
    with wf have "has_stats e" unfolding well_formed_def by blast
    then show "\<exists>h data. content e = RHash h \<and> h ''stats'' = Some data"
      by (cases "content e") (auto simp: has_stats_def)
  qed
  note L = GetLeaderboard_result[OF assms(2), of js]
  note S = GetSeason_result[OF assms(2), of js]
  note P = GetPlayerStats_result[OF assms(2), of js]
  show ?thesis
  proof (intro conjI allI impI)
    fix e assume l: "lookup (now b) (keys b) ''leaderboard'' = Some e"
    from str[OF _ l] obtain data where "content e = RString data" by blast
    with l show "\<exists>data. content e = RString data \<and>
               fst (GetLeaderboard js Live b) =
                 (case Unmarshal (UnmarshalLeaderboard js) (ZeroLeaderboard js) data of
                    Inl err \<Rightarrow>
                      Inl (Errorf ''redisclient - error unmarshalling leaderboard data: '' err)
                  | Inr v \<Rightarrow> Inr v)"
      by (simp add: L)
  next
    show "(fst (GetLeaderboard js Live b) = Inl ErrCacheMiss) =
            (lookup (now b) (keys b) ''leaderboard'' = None)"
    proof (cases "lookup (now b) (keys b) ''leaderboard''")
      case None
      then show ?thesis by (simp add: L)
    next
      case (Some e)
      from str[OF _ Some] obtain data where "content e = RString data" by blast
      with Some show ?thesis by (simp add: L split: sum.splits)
    qed
  next
    fix e assume l: "lookup (now b) (keys b) ''current_season'' = Some e"
    from str[OF _ l] obtain data where "content e = RString data" by blast
    with l show "\<exists>data. content e = RString data \<and>
               fst (GetSeason js Live b) =
                 (case Unmarshal (UnmarshalSeason js) (ZeroSeason js) data of
                    Inl err \<Rightarrow> Inl (Errorf ''redisclient - error unmarshalling season data: '' err)
                  | Inr v \<Rightarrow> Inr v)"
      by (simp add: S)
  next
    show "(fst (GetSeason js Live b) = Inl ErrCacheMiss) =
            (lookup (now b) (keys b) ''current_season'' = None)"
    proof (cases "lookup (now b) (keys b) ''current_season''")
      case None
      then show ?thesis by (simp add: S)
    next
      case (Some e)
      from str[OF _ Some] obtain data where "content e = RString data" by blast
      with Some show ?thesis by (simp add: S split: sum.splits)
    qed
  next
    fix playerID e
    assume l: "lookup (now b) (keys b) (''player_stats:'' @ playerID) = Some e"
    from hash[OF l] obtain h data where "content e = RHash h" "h ''stats'' = Some data" by blast
    with l show "\<exists>h data. content e = RHash h \<and> h ''stats'' = Some data \<and>
                  fst (GetPlayerStats js Live playerID b) =
                    (case Unmarshal (UnmarshalAttributes js) (ZeroAttributes js) data of
                       Inl err \<Rightarrow>
                         Inl (Errorf ''redisclient - error unmarshalling player stats: '' err)
                     | Inr v \<Rightarrow> Inr v)"
      by (simp add: P)
  next
    fix playerID
    show "(fst (GetPlayerStats js Live playerID b) = Inl ErrCacheMiss) =
               (lookup (now b) (keys b) (''player_stats:'' @ playerID) = None)"
    proof (cases "lookup (now b) (keys b) (''player_stats:'' @ playerID)")
      case None
      then show ?thesis by (simp add: P)
    next
      case (Some e)
      from hash[OF Some] obtain h data where "content e = RHash h" "h ''stats'' = Some data"
        by blast
      with Some show ?thesis by (simp add: P split: sum.splits)
    qed
  next
    fix e assume "lookup (now b) (keys b) ''current_season'' = Some e \<and> content e = RString ''null''"
    then show "fst (GetSeason js Live b) = Inr (ZeroSeason js)"
      by (simp add: S Unmarshal_def)
  qed
qed

text \<open>
  On the examples: with snapshot and season cached the snapshot is returned and the
  unknown player \<open>p3\<close> is a miss; bytes that are no JSON text under \<open>leaderboard\<close> give
  the wrapped decode error, and the season beside them is a miss; the stored \<open>null\<close> is
  read as the zero season.
\<close>

theorem read_results_witness:
  "well_formed (keys season_cache) \<and> down season_cache = None \<and>
   fst (GetLeaderboard encoding_json Live season_cache) = Inr snapshot \<and>
   fst (GetPlayerStats encoding_json Live ''p3'' season_cache) = Inl ErrCacheMiss \<and>
   well_formed (keys garbage_cache) \<and> down garbage_cache = None \<and>
   fst (GetLeaderboard encoding_json Live garbage_cache) =
     Inl (Errorf ''redisclient - error unmarshalling leaderboard data: ''
            (Error ''invalid character'')) \<and>
   fst (GetSeason encoding_json Live garbage_cache) = Inl ErrCacheMiss \<and>
   well_formed (keys null_cache) \<and> down null_cache = None \<and>
   fst (GetSeason encoding_json Live null_cache) = Inr (ZeroSeason encoding_json)"
proof -
  have wf: "well_formed (keys season_cache)"
    by (rule reachable_well_formed[OF reachable_season_cache])
  have up: "down season_cache = None"
    by (simp add: season_cache_def first_cache_def store_simps json_simps example_simps)
  note T = read_results[OF wf up, of encoding_json]
  have l: "lookup (now season_cache) (keys season_cache) ''leaderboard'' =
             Some \<lparr>content = RString (show_leaderboard snapshot), expires = Some (10 * Minute)\<rparr>"
    by (simp add: season_cache_def first_cache_def store_simps json_simps example_simps)
  from T[THEN conjunct1, THEN spec, THEN mp, OF l]
  have "fst (GetLeaderboard encoding_json Live season_cache) =
          (case Unmarshal (UnmarshalLeaderboard encoding_json) (ZeroLeaderboard encoding_json)
                  (show_leaderboard snapshot) of
             Inl err \<Rightarrow> Inl (Errorf ''redisclient - error unmarshalling leaderboard data: '' err)
           | Inr v \<Rightarrow> Inr v)"
    by simp
  then have a: "fst (GetLeaderboard encoding_json Live season_cache) = Inr snapshot"
    by (simp add: Unmarshal_def json_simps example_simps)
  have "lookup (now season_cache) (keys season_cache) (''player_stats:'' @ ''p3'') = None"
    by (simp add: season_cache_def first_cache_def store_simps json_simps example_simps)
  with T have b: "fst (GetPlayerStats encoding_json Live ''p3'' season_cache) = Inl ErrCacheMiss"
    by simp
  have wf': "well_formed (keys garbage_cache)"
    by (auto simp: well_formed_def garbage_cache_def is_string_def split: if_splits)
  have up': "down garbage_cache = None"
    by (simp add: garbage_cache_def empty_cache_def)
  note T' = read_results[OF wf' up', of encoding_json]
  have l': "lookup (now garbage_cache) (keys garbage_cache) ''leaderboard'' =
              Some \<lparr>content = RString ''<html>'', expires = None\<rparr>"
    by (simp add: garbage_cache_def empty_cache_def lookup_def expired_def)
  from T'[THEN conjunct1, THEN spec, THEN mp, OF l']
  have "fst (GetLeaderboard encoding_json Live garbage_cache) =
          (case Unmarshal (UnmarshalLeaderboard encoding_json) (ZeroLeaderboard encoding_json)
                  ''<html>'' of
             Inl err \<Rightarrow> Inl (Errorf ''redisclient - error unmarshalling leaderboard data: '' err)
           | Inr v \<Rightarrow> Inr v)"
    by simp
  then have c: "fst (GetLeaderboard encoding_json Live garbage_cache) =
     Inl (Errorf ''redisclient - error unmarshalling leaderboard data: ''
            (Error ''invalid character''))"
    by (simp add: Unmarshal_def json_simps)
  have "lookup (now garbage_cache) (keys garbage_cache) ''current_season'' = None"
    by (simp add: garbage_cache_def empty_cache_def lookup_def)
  with T' have d: "fst (GetSeason encoding_json Live garbage_cache) = Inl ErrCacheMiss"
    by simp
  have r: "reachable encoding_json null_cache"
    unfolding null_cache_def
    by (rule reachable.season[OF reachable.empty]) (simp add: empty_cache_def)
  have wf'': "well_formed (keys null_cache)" by (rule reachable_well_formed[OF r])
  have up'': "down null_cache = None"
    by (simp add: null_cache_def store_simps json_simps example_simps)
  note T'' = read_results[OF wf'' up'', of encoding_json]
  have l'': "lookup (now null_cache) (keys null_cache) ''current_season'' =
     Some \<lparr>content = RString ''null'', expires = Some (24 * Hour)\<rparr> \<and>
     content \<lparr>content = RString ''null'', expires = Some (24 * Hour)\<rparr> = RString ''null''"
    by (simp add: null_cache_def store_simps json_simps example_simps)
  have e: "fst (GetSeason encoding_json Live null_cache) = Inr (ZeroSeason encoding_json)"
    by (rule T''[THEN conjunct2, THEN conjunct2, THEN conjunct2, THEN conjunct2,
                 THEN conjunct2, THEN spec, THEN mp, OF l''])
  show ?thesis
    by (rule conjI[OF wf conjI[OF up conjI[OF a conjI[OF b conjI[OF wf' conjI[OF up' conjI[OF c
          conjI[OF d conjI[OF wf'' conjI[OF up'' e]]]]]]]]]])
qed

text \<open>
  C7: \<open>BackupLeaderboardData\<close>, called while no snapshot is cached, fails with
  \<open>NothingToBackup\<close> and writes nothing to blob storage: with a live context and a
  backend that answers, the result is \<open>NothingToBackup\<close> and the whole state is as it
  was; and whenever the read of the snapshot fails, for whatever reason, the storage is
  untouched.
\<close>

theorem BackupLeaderboardData_nothing_to_backup:
  "(lookup (now (redis w)) (keys (redis w)) ''leaderboard'' = None \<and> down (redis w) = None \<longrightarrow>
      BackupLeaderboardData js Live destination name w = (Some NothingToBackup, w)) \<and>
   (\<forall>err. fst (GetLeaderboard js ctx (redis w)) = Inl err \<longrightarrow>
      rest (snd (BackupLeaderboardData js ctx destination name w)) = rest w)"
proof (intro conjI impI allI)
  assume a: "lookup (now (redis w)) (keys (redis w)) ''leaderboard'' = None \<and> down (redis w) = None"
  then have "fst (GetLeaderboard js Live (redis w)) = Inl ErrCacheMiss"
    by (simp add: GetLeaderboard_result)
  moreover have "snd (GetLeaderboard js Live (redis w)) = redis w"
    by (rule GetLeaderboard_frame)
  ultimately have "GetLeaderboard js Live (redis w) = (Inl ErrCacheMiss, redis w)"
    by (simp add: prod_eq_iff)
  then show "BackupLeaderboardData js Live destination name w = (Some NothingToBackup, w)"
    by (simp add: BackupLeaderboardData_def)
next
  fix err assume "fst (GetLeaderboard js ctx (redis w)) = Inl err"
  then show "rest (snd (BackupLeaderboardData js ctx destination name w)) = rest w"
    by (auto simp: BackupLeaderboardData_def split: prod.splits sum.splits)
qed

text \<open>
  The backup of the empty cache.
\<close>

theorem BackupLeaderboardData_nothing_to_backup_witness:
  "lookup (now (redis empty_world)) (keys (redis empty_world)) ''leaderboard'' = None \<and>
   down (redis empty_world) = None \<and>
   BackupLeaderboardData encoding_json Live ''pubg-leaderboard''
     ''leaderboard_backup_20240101_120000.json'' empty_world = (Some NothingToBackup, empty_world) \<and>
   objects (rest empty_world) = Map.empty"
proof -
  have a: "lookup (now (redis empty_world)) (keys (redis empty_world)) ''leaderboard'' = None"
    by (simp add: empty_world_def empty_cache_def lookup_def)
  have b: "down (redis empty_world) = None"
    by (simp add: empty_world_def empty_cache_def)
  from BackupLeaderboardData_nothing_to_backup[of empty_world encoding_json
         "''pubg-leaderboard''" "''leaderboard_backup_20240101_120000.json''" Live] a b
  have c: "BackupLeaderboardData encoding_json Live ''pubg-leaderboard''
     ''leaderboard_backup_20240101_120000.json'' empty_world = (Some NothingToBackup, empty_world)"
    by simp
  have d: "objects (rest empty_world) = Map.empty" by (simp add: empty_world_def)
  from a b c d show ?thesis by simp
qed

text \<open>
  C8: the caller-facing entry points are to hand the caller's cancellation signal down
  to the cache operations. Three handlers do not: \<open>handleGetCurrentSeason\<close>,
  \<open>handleGetCurrentLeaderboard\<close> and \<open>handleGetPlayerStats\<close> call the service with
  \<open>context.Background()\<close>, so that their result does not depend on the request's context
  at all. For a request whose context is already canceled, the store's read under that
  context fails with \<open>Canceled\<close>, while \<open>handleGetPlayerStats\<close> serves the player with
  status 200; \<open>handleRedisPing\<close>, which does pass the request's context on, answers the
  same request with status 500.
\<close>

theorem handlers_drop_request_context:
  "handleGetCurrentSeason s (c\<lparr>req_ctx := ctx\<rparr>) w = handleGetCurrentSeason s c w \<and>
   handleGetCurrentLeaderboard s (c\<lparr>req_ctx := ctx\<rparr>) w = handleGetCurrentLeaderboard s c w \<and>
   handleGetPlayerStats s (c\<lparr>req_ctx := ctx\<rparr>) w = handleGetPlayerStats s c w \<and>
   fst (GetPlayerStats encoding_json (req_ctx canceled_request) ''p2'' first_cache) = Inl Canceled \<and>
   fst (handleGetPlayerStats cache_service canceled_request first_world) =
     JSON StatusOK
       (H [(''playerID'', JString ''p2''), (''rank'', JInt 1), (''gamesPlayed'', JInt 80),
           (''wins'', JInt 20)]) \<and>
   status (fst (handleRedisPing cache_service canceled_request first_world)) =
     StatusInternalServerError"
proof (intro conjI)
  show "handleGetCurrentSeason s (c\<lparr>req_ctx := ctx\<rparr>) w = handleGetCurrentSeason s c w"
    by (simp add: handleGetCurrentSeason_def)
  show "handleGetCurrentLeaderboard s (c\<lparr>req_ctx := ctx\<rparr>) w = handleGetCurrentLeaderboard s c w"
    by (simp add: handleGetCurrentLeaderboard_def)
  show "handleGetPlayerStats s (c\<lparr>req_ctx := ctx\<rparr>) w = handleGetPlayerStats s c w"
    by (simp add: handleGetPlayerStats_def Let_def Param_def)
  show "fst (GetPlayerStats encoding_json (req_ctx canceled_request) ''p2'' first_cache) = Inl Canceled"
    by (simp add: canceled_request_def GetPlayerStats_def Process_def)
  show "fst (handleGetPlayerStats cache_service canceled_request first_world) =
     JSON StatusOK
       (H [(''playerID'', JString ''p2''), (''rank'', JInt 1), (''gamesPlayed'', JInt 80),
           (''wins'', JInt 20)])"
    by (simp add: handleGetPlayerStats_def Let_def cache_service_def Background_def Param_def
          canceled_request_def first_world_def empty_world_def first_cache_def
          store_simps json_simps example_simps)
  show "status (fst (handleRedisPing cache_service canceled_request first_world)) =
     StatusInternalServerError"
    by (simp add: handleRedisPing_def Ping_def Process_def canceled_request_def JSON_def)
qed

text \<open>
  C9, as the specification states it: every error response is 404 or 500. The code
  has a third: \<open>POST /restore-leaderboard\<close> without a \<open>file\<close> parameter is answered
  with status 400.
\<close>

theorem error_status_counterexample:
  "(''POST'', ''/restore-leaderboard'', handleRestoreLeaderboard cache_service)
     \<in> set (setupRoutes cache_service) \<and>
   status (fst (handleRestoreLeaderboard cache_service no_file_request empty_world)) =
     StatusBadRequest \<and>
   StatusBadRequest \<noteq> StatusNotFound \<and> StatusBadRequest \<noteq> StatusInternalServerError \<and>
   StatusBadRequest \<noteq> StatusOK"
  by (simp add: setupRoutes_def handleRestoreLeaderboard_def Let_def Query_def no_file_request_def
        status_simps)

text \<open>
  C9, amended: the handlers of the seven routes that \<open>setupRoutes\<close> registers answer
  with status 200, 400, 404 or 500 (what the router answers by itself to a request that
  reaches none of them is not theirs). The status is 200 exactly when the handler's
  call succeeds; \<open>/ping\<close> always succeeds. 404 is the answer of
  \<open>GET /player-stats/:playerID\<close> alone, exactly when the service's error is
  \<open>ErrCacheMiss\<close>; 400 is the answer of \<open>POST /restore-leaderboard\<close> alone, exactly when
  the \<open>file\<close> parameter is empty, and then the service is not called: the answer is fixed
  and the state is as it was. Every other failure of the service or of the ping, at
  every handler, is a 500.
\<close>

theorem error_statuses:
  "(\<forall>(method, path, h)\<in>set (setupRoutes s).
      status (fst (h c w)) \<in>
        {StatusOK, StatusBadRequest, StatusNotFound, StatusInternalServerError} \<and>
      (status (fst (h c w)) = StatusNotFound) =
        (path = ''/player-stats/:playerID'' \<and>
         fst (service_GetPlayerStats s Background (Param c ''playerID'') w) = Inl ErrCacheMiss) \<and>
      (status (fst (h c w)) = StatusBadRequest) =
        (path = ''/restore-leaderboard'' \<and> Query c ''file'' = [])) \<and>
   map (\<lambda>(method, path, h). h) (setupRoutes s) =
     [handlePing s, handleRedisPing s, handleGetCurrentSeason s, handleGetCurrentLeaderboard s,
      handleGetPlayerStats s, handleBackupLeaderboard s, handleRestoreLeaderboard s] \<and>
   status (fst (handlePing s c w)) = StatusOK \<and>
   status (fst (handleRedisPing s c w)) =
     (case fst (Ping (req_ctx c) (redis w)) of
        Some err \<Rightarrow> StatusInternalServerError
      | None \<Rightarrow> StatusOK) \<and>
   status (fst (handleGetCurrentSeason s c w)) =
     (case fst (service_GetCurrentSeason s Background w) of
        Inl err \<Rightarrow> StatusInternalServerError
      | Inr seasonData \<Rightarrow> StatusOK) \<and>
   status (fst (handleGetCurrentLeaderboard s c w)) =
     (case fst (service_GetCurrentLeaderboard s Background w) of
        Inl err \<Rightarrow> StatusInternalServerError
      | Inr leaderboardData \<Rightarrow> StatusOK) \<and>
   status (fst (handleGetPlayerStats s c w)) =
     (case fst (service_GetPlayerStats s Background (Param c ''playerID'') w) of
        Inl err \<Rightarrow> if err = ErrCacheMiss then StatusNotFound else StatusInternalServerError
      | Inr stats \<Rightarrow> StatusOK) \<and>
   status (fst (handleBackupLeaderboard s c w)) =
     (case fst (service_BackupLeaderboardData s (req_ctx c) ''pubg-leaderboard''
                 (''leaderboard_backup_'' @ clock w @ ''.json'') w) of
        Some err \<Rightarrow> StatusInternalServerError
      | None \<Rightarrow> StatusOK) \<and>
   status (fst (handleRestoreLeaderboard s c w)) =
     (if Query c ''file'' = [] then StatusBadRequest
      else (case fst (service_RestoreLeaderboardData s (req_ctx c) ''pubg-leaderboard''
                        (Query c ''file'') w) of
              Some err \<Rightarrow> StatusInternalServerError
            | None \<Rightarrow> StatusOK)) \<and>
   (Query c ''file'' = [] \<longrightarrow>
      handleRestoreLeaderboard s c w =
        (JSON StatusBadRequest (H [(''error'', JString ''Backup file name is required'')]), w))"
proof -
  have ne: "StatusOK \<noteq> StatusNotFound" "StatusOK \<noteq> StatusBadRequest"
    "StatusInternalServerError \<noteq> StatusNotFound" "StatusInternalServerError \<noteq> StatusBadRequest"
    "StatusNotFound \<noteq> StatusBadRequest" "StatusBadRequest \<noteq> StatusNotFound"
    by (simp_all add: status_simps)
  have two: "\<And>x. x = StatusOK \<or> x = StatusInternalServerError \<Longrightarrow>
      x \<in> {StatusOK, StatusBadRequest, StatusNotFound, StatusInternalServerError} \<and>
      x \<noteq> StatusNotFound \<and> x \<noteq> StatusBadRequest"
    using ne by auto
  note a = two[OF disjI1[OF handlePing_status[of s c w]]]
  note b = two[OF handleRedisPing_status[of s c w]]
  note d = two[OF handleGetCurrentSeason_status[of s c w]]
  note e = two[OF handleGetCurrentLeaderboard_status[of s c w]]
  note f = two[OF handleBackupLeaderboard_status[of s c w]]
  have g: "status (fst (handleGetPlayerStats s c w)) \<in>
       {StatusOK, StatusBadRequest, StatusNotFound, StatusInternalServerError} \<and>
     (status (fst (handleGetPlayerStats s c w)) = StatusNotFound) =
       (fst (service_GetPlayerStats s Background (Param c ''playerID'') w) = Inl ErrCacheMiss) \<and>
     status (fst (handleGetPlayerStats s c w)) \<noteq> StatusBadRequest"
    using ne by (auto simp: handleGetPlayerStats_status split: sum.splits)
  have h: "status (fst (handleRestoreLeaderboard s c w)) \<in>
       {StatusOK, StatusBadRequest, StatusNotFound, StatusInternalServerError} \<and>
     status (fst (handleRestoreLeaderboard s c w)) \<noteq> StatusNotFound \<and>
     (status (fst (handleRestoreLeaderboard s c w)) = StatusBadRequest) = (Query c ''file'' = [])"
    using ne by (auto simp: handleRestoreLeaderboard_status split: option.splits)
  have routes: "\<forall>(method, path, h)\<in>set (setupRoutes s).
      status (fst (h c w)) \<in>
        {StatusOK, StatusBadRequest, StatusNotFound, StatusInternalServerError} \<and>
      (status (fst (h c w)) = StatusNotFound) =
        (path = ''/player-stats/:playerID'' \<and>
         fst (service_GetPlayerStats s Background (Param c ''playerID'') w) = Inl ErrCacheMiss) \<and>
      (status (fst (h c w)) = StatusBadRequest) =
        (path = ''/restore-leaderboard'' \<and> Query c ''file'' = [])"
    unfolding setupRoutes_def using a b d e f g h by auto
  have all: "map (\<lambda>(method, path, h). h) (setupRoutes s) =
     [handlePing s, handleRedisPing s, handleGetCurrentSeason s, handleGetCurrentLeaderboard s,
      handleGetPlayerStats s, handleBackupLeaderboard s, handleRestoreLeaderboard s]"
    by (simp add: setupRoutes_def)
  have ping: "status (fst (handleRedisPing s c w)) =
     (case fst (Ping (req_ctx c) (redis w)) of
        Some err \<Rightarrow> StatusInternalServerError
      | None \<Rightarrow> StatusOK)"
    by (simp add: handleRedisPing_def JSON_def split: prod.splits option.splits)
  have season: "status (fst (handleGetCurrentSeason s c w)) =
     (case fst (service_GetCurrentSeason s Background w) of
        Inl err \<Rightarrow> StatusInternalServerError
      | Inr seasonData \<Rightarrow> StatusOK)"
    by (simp add: handleGetCurrentSeason_def JSON_def split: prod.splits sum.splits)
  have board: "status (fst (handleGetCurrentLeaderboard s c w)) =
     (case fst (service_GetCurrentLeaderboard s Background w) of
        Inl err \<Rightarrow> StatusInternalServerError
      | Inr leaderboardData \<Rightarrow> StatusOK)"
    by (simp add: handleGetCurrentLeaderboard_def JSON_def split: prod.splits sum.splits)
  have backup: "status (fst (handleBackupLeaderboard s c w)) =
     (case fst (service_BackupLeaderboardData s (req_ctx c) ''pubg-leaderboard''
                 (''leaderboard_backup_'' @ clock w @ ''.json'') w) of
        Some err \<Rightarrow> StatusInternalServerError
      | None \<Rightarrow> StatusOK)"
    by (simp add: handleBackupLeaderboard_def JSON_def Let_def split: prod.splits option.splits)
  have bad: "Query c ''file'' = [] \<longrightarrow>
      handleRestoreLeaderboard s c w =
        (JSON StatusBadRequest (H [(''error'', JString ''Backup file name is required'')]), w)"
    by (simp add: handleRestoreLeaderboard_def Let_def)
  show ?thesis
    by (rule conjI[OF routes conjI[OF all conjI[OF handlePing_status conjI[OF ping
          conjI[OF season conjI[OF board conjI[OF handleGetPlayerStats_status
          conjI[OF backup conjI[OF handleRestoreLeaderboard_status bad]]]]]]]]])
qed

text \<open>
  The player statistics of the unknown player \<open>p3\<close> are a 404; the leaderboard of the
  empty cache, a miss of the service, is a 500; the restore without a file name is
  the 400 with the state unchanged.
\<close>

theorem error_statuses_witness:
  "(''GET'', ''/player-stats/:playerID'', handleGetPlayerStats cache_service)
     \<in> set (setupRoutes cache_service) \<and>
   fst (service_GetPlayerStats cache_service Background
          (Param (canceled_request\<lparr>params := [''playerID'' \<mapsto> ''p3'']\<rparr>) ''playerID'') first_world) =
     Inl ErrCacheMiss \<and>
   status (fst (handleGetPlayerStats cache_service
                  (canceled_request\<lparr>params := [''playerID'' \<mapsto> ''p3'']\<rparr>) first_world)) =
     StatusNotFound \<and>
   fst (service_GetCurrentLeaderboard cache_service Background empty_world) = Inl ErrCacheMiss \<and>
   status (fst (handleGetCurrentLeaderboard cache_service no_file_request empty_world)) =
     StatusInternalServerError \<and>
   Query no_file_request ''file'' = [] \<and>
   handleRestoreLeaderboard cache_service no_file_request empty_world =
     (JSON StatusBadRequest (H [(''error'', JString ''Backup file name is required'')]),
      empty_world)"
proof -
  let ?c = "canceled_request\<lparr>params := [''playerID'' \<mapsto> ''p3'']\<rparr>"
  have m: "(''GET'', ''/player-stats/:playerID'', handleGetPlayerStats cache_service)
     \<in> set (setupRoutes cache_service)"
    by (simp add: setupRoutes_def)
  have miss: "fst (service_GetPlayerStats cache_service Background (Param ?c ''playerID'') first_world) =
     Inl ErrCacheMiss"
    by (simp add: cache_service_def Background_def Param_def canceled_request_def first_world_def
          empty_world_def first_cache_def store_simps json_simps example_simps)
  note T = error_statuses[of cache_service ?c first_world]
  from T[THEN conjunct1, THEN bspec, OF m] miss
  have nf: "status (fst (handleGetPlayerStats cache_service ?c first_world)) = StatusNotFound"
    by simp
  have lb: "fst (service_GetCurrentLeaderboard cache_service Background empty_world) =
              Inl ErrCacheMiss"
    by (simp add: cache_service_def Background_def empty_world_def store_simps json_simps
          example_simps split: prod.splits)
  note U = error_statuses[of cache_service no_file_request empty_world]
  from U lb
  have ise: "status (fst (handleGetCurrentLeaderboard cache_service no_file_request empty_world)) =
     StatusInternalServerError"
    by simp
  have q: "Query no_file_request ''file'' = []"
    by (simp add: Query_def no_file_request_def)
  from U q
  have bad: "handleRestoreLeaderboard cache_service no_file_request empty_world =
     (JSON StatusBadRequest (H [(''error'', JString ''Backup file name is required'')]),
      empty_world)"
    by blast
  show ?thesis
    by (rule conjI[OF m conjI[OF miss conjI[OF nf conjI[OF lb conjI[OF ise conjI[OF q bad]]]]]])
qed

text \<open>
  C10: the read operations \<open>GetLeaderboard\<close>, \<open>GetPlayerStats\<close> and \<open>GetSeason\<close> never
  modify cache state: from every starting state, with every context and whatever they
  return (a value, \<open>ErrCacheMiss\<close>, a decode error or a backend error), the backend
  afterwards is the backend before, in every key, stored value and expiry.
\<close>

theorem reads_leave_cache_unchanged:
  "snd (GetLeaderboard js ctx b) = b \<and>
   snd (GetPlayerStats js ctx playerID b) = b \<and>
   snd (GetSeason js ctx b) = b"
  by (simp add: GetLeaderboard_frame GetPlayerStats_frame GetSeason_frame)

end
